theory Spec2Isabelle
  imports Main "HOL-Library.Word"
begin

section \<open>Errors\<close>

text \<open>
  Go errors as values. \<open>DeadlineExceeded\<close> and \<open>Canceled\<close> are the two sentinel errors of
  package context; \<open>Wrapped\<close> is an error that wraps another one (\<open>%w\<close>, \<open>*url.Error\<close>),
  which \<open>errors.Is\<close> looks through; \<open>ErrorString\<close> is a plain \<open>fmt.Errorf\<close> message.
  \<open>StatusError\<close> is the "unexpected status code" error of \<open>getSmallText\<close>, with the code.
  \<open>MissingEnv\<close> is the error of \<open>expandEnv\<close>: its message joins the names of a Go map,
  whose iteration order is unspecified, so it carries the set of names.
\<close>

datatype error =
    DeadlineExceeded
  | Canceled
  | ErrorString string
  | Wrapped string error
  | StatusError int
  | MissingEnv "string set"

fun errors_Is :: "error \<Rightarrow> error \<Rightarrow> bool" where
  "errors_Is (Wrapped m e) target = (Wrapped m e = target \<or> errors_Is e target)"
| "errors_Is e target = (e = target)"

section \<open>The configuration file watcher (cmd/main.go)\<close>

text \<open>
  \<open>FileSig\<close>: the modification time is an instant (nanoseconds, totally ordered, which is
  all \<open>Time.After\<close> reads), the size an int64 and the inode a uint64; both are only
  compared for equality.
\<close>

record FileSig =
  ModTime :: int
  Size :: "64 word"
  Inode :: "64 word"

text \<open>A \<open>*FileSig\<close> is a \<open>FileSig option\<close>, \<open>None\<close> the nil pointer.\<close>

definition Changed :: "FileSig option \<Rightarrow> FileSig option \<Rightarrow> bool" where
  "Changed fs1 fs2 =
     (case fs1 of
        None \<Rightarrow> False
      | Some a \<Rightarrow>
          (case fs2 of
             None \<Rightarrow> False
           | Some b \<Rightarrow> ModTime a < ModTime b \<or> Size b \<noteq> Size a \<or> Inode b \<noteq> Inode a))"

text \<open>
  What \<open>os.Stat\<close> gives: the modification time, the size, and the inode number when
  \<open>info.Sys()\<close> is a \<open>*syscall.Stat_t\<close> (\<open>None\<close> when the type assertion fails).
\<close>

record FileInfo =
  fi_ModTime :: int
  fi_Size :: "64 word"
  fi_Sys :: "64 word option"

definition getFileSig :: "error + FileInfo \<Rightarrow> FileSig option" where
  "getFileSig st =
     (case st of
        Inl err \<Rightarrow> None
      | Inr info \<Rightarrow>
          Some \<lparr>ModTime = fi_ModTime info, Size = fi_Size info,
                Inode = (case fi_Sys info of Some ino \<Rightarrow> ino | None \<Rightarrow> 0)\<rparr>)"

text \<open>
  The watcher goroutine owns the stored signature \<open>fileSig\<close> and writes to a channel of
  capacity 1; \<open>ch_len\<close> is the number of notifications buffered in it. A send is
  non-blocking: on a full channel the notification is dropped.
\<close>

record watcher =
  fileSig :: "FileSig option"
  ch_len :: nat
  ch_closed :: bool

datatype send = NoSend | Sent | Dropped

definition try_send :: "watcher \<Rightarrow> watcher \<times> send" where
  "try_send w = (if ch_len w < 1 then (w\<lparr>ch_len := ch_len w + 1\<rparr>, Sent) else (w, Dropped))"

text \<open>One pass of the loop body on a tick; \<open>st\<close> is what \<open>os.Stat\<close> returns at that tick.\<close>

definition watch_tick :: "watcher \<Rightarrow> error + FileInfo \<Rightarrow> watcher \<times> send" where
  "watch_tick w st =
     (let fileSigNew = getFileSig st in
      if fileSigNew = None then (w, NoSend)
      else if fileSig w = None then (w\<lparr>fileSig := fileSigNew\<rparr>, NoSend)
      else if Changed (fileSig w) fileSigNew then try_send (w\<lparr>fileSig := fileSigNew\<rparr>)
      else (w, NoSend))"

text \<open>
  The events the goroutine's \<open>select\<close> sees, and the driver's receive from the channel,
  in the order they happen.
\<close>

datatype watch_event = CtxDone | Tick "error + FileInfo" | Recv

fun watch_loop :: "watcher \<Rightarrow> watch_event list \<Rightarrow> watcher \<times> send list" where
  "watch_loop w [] = (w, [])"
| "watch_loop w (CtxDone # evs) = (w\<lparr>ch_closed := True\<rparr>, [])"
| "watch_loop w (Recv # evs) = watch_loop (w\<lparr>ch_len := ch_len w - 1\<rparr>) evs"
| "watch_loop w (Tick st # evs) =
     (let (w', s) = watch_tick w st; (w'', ss) = watch_loop w' evs in (w'', s # ss))"

definition watchFile :: "error + FileInfo \<Rightarrow> watch_event list \<Rightarrow> watcher \<times> send list" where
  "watchFile st0 evs =
     watch_loop \<lparr>fileSig = getFileSig st0, ch_len = 0, ch_closed = False\<rparr> evs"

section \<open>Loading the configuration (pkg/config)\<close>

text \<open>
  \<open>strings.TrimSpace\<close> removes the leading and the trailing runes that \<open>unicode.IsSpace\<close>
  accepts. A Go string is a sequence of bytes and the runes are decoded from UTF-8; a
  byte sequence that is no valid encoding decodes to U+FFFD, which is no white space.
  So a white-space rune stands at the start (or the end) of a string exactly when the
  string starts (or ends) with the encoding of a white-space code point:
  one byte for U+0009 to U+000D and U+0020 (\<open>asciiSpace\<close>); two bytes for U+0085 and
  U+00A0 (\<open>space2\<close>); three bytes for U+1680, U+2000 to U+200A, U+2028, U+2029, U+202F,
  U+205F and U+3000 (\<open>space3\<close>).
\<close>

definition asciiSpace :: "char \<Rightarrow> bool" where
  "asciiSpace c = (of_char c \<in> {9, 10, 11, 12, 13, 32 :: nat})"

definition space2 :: "char \<Rightarrow> char \<Rightarrow> bool" where
  "space2 c1 c2 =
     (of_char c1 = (0xC2 :: nat) \<and> (of_char c2 = (0x85 :: nat) \<or> of_char c2 = (0xA0 :: nat)))"

definition space3 :: "char \<Rightarrow> char \<Rightarrow> char \<Rightarrow> bool" where
  "space3 c1 c2 c3 =
     (let b1 = (of_char c1 :: nat); b2 = (of_char c2 :: nat); b3 = (of_char c3 :: nat) in
        (b1 = 0xE1 \<and> b2 = 0x9A \<and> b3 = 0x80)
      \<or> (b1 = 0xE2 \<and> b2 = 0x80 \<and> ((0x80 \<le> b3 \<and> b3 \<le> 0x8A) \<or> b3 = 0xA8 \<or> b3 = 0xA9 \<or> b3 = 0xAF))
      \<or> (b1 = 0xE2 \<and> b2 = 0x81 \<and> b3 = 0x9F)
      \<or> (b1 = 0xE3 \<and> b2 = 0x80 \<and> b3 = 0x80))"

text \<open>
  \<open>trim_runes p1 p2 p3\<close> drops runes from the front of a string as long as a rune of one,
  two or three bytes accepted by \<open>p1\<close>, \<open>p2\<close> or \<open>p3\<close> stands there. \<open>TrimLeft\<close> is
  \<open>TrimLeftFunc(s, unicode.IsSpace)\<close>; \<open>TrimRight\<close> is \<open>TrimRightFunc(s, unicode.IsSpace)\<close>,
  which decodes from the end: it is the same scan over the reversed string, with the
  bytes of a rune in reverse order.
\<close>

fun trim_runes :: "(char \<Rightarrow> bool) \<Rightarrow> (char \<Rightarrow> char \<Rightarrow> bool) \<Rightarrow> (char \<Rightarrow> char \<Rightarrow> char \<Rightarrow> bool) \<Rightarrow> string \<Rightarrow> string" where
  "trim_runes p1 p2 p3 [] = []"
| "trim_runes p1 p2 p3 [c1] = (if p1 c1 then [] else [c1])"
| "trim_runes p1 p2 p3 [c1, c2] =
     (if p1 c1 then trim_runes p1 p2 p3 [c2] else if p2 c1 c2 then [] else [c1, c2])"
| "trim_runes p1 p2 p3 (c1 # c2 # c3 # cs) =
     (if p1 c1 then trim_runes p1 p2 p3 (c2 # c3 # cs)
      else if p2 c1 c2 then trim_runes p1 p2 p3 (c3 # cs)
      else if p3 c1 c2 c3 then trim_runes p1 p2 p3 cs
      else c1 # c2 # c3 # cs)"

definition TrimLeft :: "string \<Rightarrow> string" where
  "TrimLeft s = trim_runes asciiSpace space2 space3 s"

definition TrimRight :: "string \<Rightarrow> string" where
  "TrimRight s =
     rev (trim_runes asciiSpace (\<lambda>c2 c1. space2 c1 c2) (\<lambda>c3 c2 c1. space3 c1 c2 c3) (rev s))"

definition TrimSpace :: "string \<Rightarrow> string" where
  "TrimSpace s = TrimRight (TrimLeft s)"

text \<open>Whether a rune accepted by \<open>p1\<close>, \<open>p2\<close> or \<open>p3\<close> stands at the front of a string.\<close>

fun starts_rune :: "(char \<Rightarrow> bool) \<Rightarrow> (char \<Rightarrow> char \<Rightarrow> bool) \<Rightarrow> (char \<Rightarrow> char \<Rightarrow> char \<Rightarrow> bool) \<Rightarrow> string \<Rightarrow> bool" where
  "starts_rune p1 p2 p3 [] = False"
| "starts_rune p1 p2 p3 [c1] = p1 c1"
| "starts_rune p1 p2 p3 [c1, c2] = (p1 c1 \<or> p2 c1 c2)"
| "starts_rune p1 p2 p3 (c1 # c2 # c3 # cs) = (p1 c1 \<or> p2 c1 c2 \<or> p3 c1 c2 c3)"

record Domain =
  Hostname :: string
  Proxied :: "bool option"

text \<open>
  \<open>Frequency\<close> and \<open>Timeout\<close> are \<open>time.Duration\<close> values, a signed count of nanoseconds;
  they and \<open>WorkerCount\<close> are only compared and assigned constants when loading, so they
  are integers here. \<open>IPv4\<close> and \<open>IPv6\<close> are \<open>*bool\<close>, \<open>None\<close> the nil pointer.
\<close>

record Config =
  ZoneID :: string
  Token :: string
  Frequency :: int
  Verbose :: bool
  IPv4 :: "bool option"
  IPv6 :: "bool option"
  Domains :: "Domain list"
  WorkerCount :: int
  Timeout :: int

definition Second :: int where "Second = 1000000000"
definition Minute :: int where "Minute = 60 * Second"
definition Hour :: int where "Hour = 60 * Minute"

definition DEFAULT_FREQUENCY :: int where "DEFAULT_FREQUENCY = Hour * 1"
definition MINIMUM_FREQUENCY :: int where "MINIMUM_FREQUENCY = Minute * 1"
definition DEFAULT_TIMEOUT :: int where "DEFAULT_TIMEOUT = Second * 10"
definition MINIMUM_TIMEOUT :: int where "MINIMUM_TIMEOUT = Second * 1"
definition DEFAULT_WORKER_COUNT :: int where "DEFAULT_WORKER_COUNT = 10"
definition MINIMUM_WORKER_COUNT :: int where "MINIMUM_WORKER_COUNT = 1"
definition MAXIMUM_WORKER_COUNT :: int where "MAXIMUM_WORKER_COUNT = 100"

subsection \<open>The regular expression \<open>reEnv\<close>\<close>

text \<open>
  \<open>reEnv\<close> is \<^verbatim>\<open>\$\{([A-Za-z_][A-Za-z0-9_]*)\}\<close>. \<open>reEnv_prefix s\<close> matches it at the start of
  \<open>s\<close> and gives the name (group 1) and the text after the closing brace. The star is
  greedy and a brace is no name character, so the name is the longest run of name
  characters and the match at a position is unique.
\<close>

definition name_start :: "char \<Rightarrow> bool" where
  "name_start c =
     (let n = (of_char c :: nat) in (65 \<le> n \<and> n \<le> 90) \<or> (97 \<le> n \<and> n \<le> 122) \<or> n = 95)"

definition name_char :: "char \<Rightarrow> bool" where
  "name_char c = (name_start c \<or> (48 \<le> (of_char c :: nat) \<and> (of_char c :: nat) \<le> 57))"

fun reEnv_prefix :: "string \<Rightarrow> (string \<times> string) option" where
  "reEnv_prefix (c1 # c2 # c3 # cs) =
     (if c1 = CHR ''$'' \<and> c2 = CHR ''{'' \<and> name_start c3 then
        (case dropWhile name_char cs of
           [] \<Rightarrow> None
         | c # rest \<Rightarrow> if c = CHR ''}'' then Some (c3 # takeWhile name_char cs, rest) else None)
      else None)"
| "reEnv_prefix s = None"

text \<open>
  The source text cut at the successive leftmost matches, which do not overlap: a byte
  that starts no match is copied, a match is consumed whole and the search goes on
  behind it.
\<close>

datatype piece = Lit char | Match string

function reEnv_split :: "string \<Rightarrow> piece list" where
  "reEnv_split [] = []"
| "reEnv_split (c # cs) =
     (case reEnv_prefix (c # cs) of
        None \<Rightarrow> Lit c # reEnv_split cs
      | Some (name, rest) \<Rightarrow> Match name # reEnv_split rest)"
  by pat_completeness auto
termination
proof (relation "measure length")
  show "wf (measure length)" by simp
next
  fix c :: char and cs :: string
  show "(cs, c # cs) \<in> measure length" by simp
next
  fix c :: char and cs x2 name rest
  assume "reEnv_prefix (c # cs) = Some x2" and "(name, rest) = x2"
  then have m: "reEnv_prefix (c # cs) = Some (name, rest)" by simp
  then obtain c2 c3 ds where cs: "cs = c2 # c3 # ds"
    by (cases "c # cs" rule: reEnv_prefix.cases) auto
  with m obtain d where "dropWhile name_char ds = d # rest"
    by (auto split: if_splits list.splits)
  then have "length rest < length ds"
    using length_dropWhile_le [of name_char ds] by simp
  with cs show "(rest, c # cs) \<in> measure length" by simp
qed

text \<open>The matched text of a piece, and the source text the pieces were cut from.\<close>

definition match_text :: "string \<Rightarrow> string" where
  "match_text name = ''${'' @ name @ ''}''"

fun piece_text :: "piece \<Rightarrow> string" where
  "piece_text (Lit c) = [c]"
| "piece_text (Match name) = match_text name"

text \<open>
  \<open>FindStringSubmatch(m)[1]\<close>: group 1 of the leftmost match in \<open>m\<close>. Without a match
  the result is nil and the index expression panics (\<open>None\<close>).
\<close>

fun FindStringSubmatch_1 :: "string \<Rightarrow> string option" where
  "FindStringSubmatch_1 [] = None"
| "FindStringSubmatch_1 (c # cs) =
     (case reEnv_prefix (c # cs) of
        Some (name, rest) \<Rightarrow> Some name
      | None \<Rightarrow> FindStringSubmatch_1 cs)"

text \<open>
  \<open>ReplaceAllStringFunc\<close> calls \<open>repl\<close> on the text of each match, in order. The closure
  of the source writes to the map \<open>missing\<close>, so \<open>repl\<close> takes and returns that state;
  \<open>None\<close> is a panic inside \<open>repl\<close>.
\<close>

fun replace_pieces :: "(string \<Rightarrow> 's \<Rightarrow> (string \<times> 's) option) \<Rightarrow> piece list \<Rightarrow> 's \<Rightarrow> (string \<times> 's) option" where
  "replace_pieces repl [] st = Some ([], st)"
| "replace_pieces repl (Lit c # ps) st =
     (case replace_pieces repl ps st of
        None \<Rightarrow> None
      | Some (out, st') \<Rightarrow> Some (c # out, st'))"
| "replace_pieces repl (Match name # ps) st =
     (case repl (match_text name) st of
        None \<Rightarrow> None
      | Some (v, st') \<Rightarrow>
          (case replace_pieces repl ps st' of
             None \<Rightarrow> None
           | Some (out, st'') \<Rightarrow> Some (v @ out, st'')))"

definition ReplaceAllStringFunc :: "(string \<Rightarrow> 's \<Rightarrow> (string \<times> 's) option) \<Rightarrow> string \<Rightarrow> 's \<Rightarrow> (string \<times> 's) option" where
  "ReplaceAllStringFunc repl src st = replace_pieces repl (reEnv_split src) st"

subsection \<open>\<open>expandEnv\<close> and \<open>LoadConfig\<close>\<close>

text \<open>
  The environment is a map from names to values (\<open>os.LookupEnv\<close>). The results are
  \<open>(error + 'a) option\<close>: \<open>None\<close> is a panic, \<open>Some (Inl err)\<close> a returned error.
\<close>

definition expandEnv_repl :: "(string \<rightharpoonup> string) \<Rightarrow> string \<Rightarrow> string set \<Rightarrow> (string \<times> string set) option" where
  "expandEnv_repl env m missing =
     (case FindStringSubmatch_1 m of
        None \<Rightarrow> None
      | Some name \<Rightarrow>
          (case env name of
             None \<Rightarrow> Some ([], insert name missing)
           | Some val \<Rightarrow> Some (val, missing)))"

definition expandEnv :: "(string \<rightharpoonup> string) \<Rightarrow> string \<Rightarrow> (error + string) option" where
  "expandEnv env data =
     (case ReplaceAllStringFunc (expandEnv_repl env) data {} of
        None \<Rightarrow> None
      | Some (data', missing) \<Rightarrow>
          Some (if missing \<noteq> {} then Inl (MissingEnv missing) else Inr data'))"

text \<open>
  The part of \<open>LoadConfig\<close> after the decoder. The four blocks that set defaults and
  floors each write one kind of field; they are functions of their own here, in the
  order of the source.
\<close>

definition default_frequency :: "Config \<Rightarrow> Config" where
  "default_frequency config =
     (let config1 = (if Frequency config = 0 then config\<lparr>Frequency := DEFAULT_FREQUENCY\<rparr> else config)
      in if Frequency config1 < MINIMUM_FREQUENCY then config1\<lparr>Frequency := MINIMUM_FREQUENCY\<rparr>
         else config1)"

definition default_timeout :: "Config \<Rightarrow> Config" where
  "default_timeout config =
     (let config1 = (if Timeout config = 0 then config\<lparr>Timeout := DEFAULT_TIMEOUT\<rparr> else config)
      in if Timeout config1 < MINIMUM_TIMEOUT then config1\<lparr>Timeout := MINIMUM_TIMEOUT\<rparr>
         else config1)"

definition default_worker_count :: "Config \<Rightarrow> Config" where
  "default_worker_count config =
     (let config1 = (if WorkerCount config \<le> 0 then config\<lparr>WorkerCount := DEFAULT_WORKER_COUNT\<rparr> else config);
          config2 = (if WorkerCount config1 < MINIMUM_WORKER_COUNT
                     then config1\<lparr>WorkerCount := MINIMUM_WORKER_COUNT\<rparr> else config1)
      in if WorkerCount config2 > MAXIMUM_WORKER_COUNT then config2\<lparr>WorkerCount := MAXIMUM_WORKER_COUNT\<rparr>
         else config2)"

definition default_families :: "Config \<Rightarrow> Config" where
  "default_families config =
     (let config1 = (if IPv4 config = None \<and> IPv6 config = None
                     then config\<lparr>IPv4 := Some True, IPv6 := Some True\<rparr> else config);
          config2 = (if IPv4 config1 = None then config1\<lparr>IPv4 := Some False\<rparr> else config1)
      in if IPv6 config2 = None then config2\<lparr>IPv6 := Some False\<rparr> else config2)"

text \<open>The last check dereferences both flags; on a nil pointer that is a panic.\<close>

definition check_families :: "Config \<Rightarrow> (error + Config) option" where
  "check_families config =
     (case IPv4 config of
        None \<Rightarrow> None
      | Some v4 \<Rightarrow>
          (case IPv6 config of
             None \<Rightarrow> None
           | Some v6 \<Rightarrow>
               if \<not> v4 \<and> \<not> v6
               then Some (Inl (ErrorString ''at least one of ipv4 or ipv6 must be enabled''))
               else Some (Inr config)))"

definition LoadConfig_checks :: "Config \<Rightarrow> (error + Config) option" where
  "LoadConfig_checks config0 =
     (let config1 = config0\<lparr>ZoneID := TrimSpace (ZoneID config0)\<rparr> in
      if ZoneID config1 = [] then Some (Inl (ErrorString ''zone id cannot be empty''))
      else
        let config2 = config1\<lparr>Token := TrimSpace (Token config1)\<rparr> in
        if Token config2 = [] then Some (Inl (ErrorString ''API token cannot be empty''))
        else if length (Domains config2) = 0
        then Some (Inl (ErrorString ''domains list cannot be empty''))
        else check_families
               (default_families (default_worker_count (default_timeout (default_frequency config2)))))"

text \<open>
  \<open>readFile\<close> is \<open>os.ReadFile\<close> and \<open>decode\<close> the strict YAML decoder into a zero \<open>Config\<close>;
  both are outside the repository and are parameters.
\<close>

definition LoadConfig :: "(string \<Rightarrow> error + string) \<Rightarrow> (string \<rightharpoonup> string) \<Rightarrow> (string \<Rightarrow> error + Config) \<Rightarrow> string \<Rightarrow> (error + Config) option" where
  "LoadConfig readFile env decode filename =
     (case readFile filename of
        Inl err \<Rightarrow> Some (Inl (Wrapped ''could not read file'' err))
      | Inr raw \<Rightarrow>
          (case expandEnv env raw of
             None \<Rightarrow> None
           | Some (Inl err) \<Rightarrow> Some (Inl err)
           | Some (Inr data) \<Rightarrow>
               (case decode data of
                  Inl err \<Rightarrow> Some (Inl (Wrapped ''could not parse config file'' err))
                | Inr config \<Rightarrow> LoadConfig_checks config)))"


subsection \<open>What the text references\<close>

text \<open>
  The names a text references through \<^verbatim>\<open>${VAR}\<close>, in order of occurrence, are the names
  of the matches of \<open>reEnv\<close>; \<open>substitute\<close> is the text with every such occurrence
  replaced by the value of its variable (by nothing when the variable is unset).
  \<open>valid_name\<close> is the shape of group 1: a letter or underscore, then letters, digits
  and underscores.
\<close>

definition valid_name :: "string \<Rightarrow> bool" where
  "valid_name name = (case name of [] \<Rightarrow> False | c # cs \<Rightarrow> name_start c \<and> list_all name_char cs)"

definition references :: "string \<Rightarrow> string list" where
  "references s = concat (map (\<lambda>p. case p of Lit c \<Rightarrow> [] | Match name \<Rightarrow> [name]) (reEnv_split s))"

definition substitute :: "(string \<rightharpoonup> string) \<Rightarrow> string \<Rightarrow> string" where
  "substitute env s =
     concat (map (\<lambda>p. case p of Lit c \<Rightarrow> [c]
                      | Match name \<Rightarrow> (case env name of None \<Rightarrow> [] | Some val \<Rightarrow> val))
               (reEnv_split s))"


subsection \<open>Concrete decoded files\<close>

text \<open>
  What the decoder may give for three files. \<open>unset_file\<close> sets only the zone, the token
  and a domain. \<open>floor_file\<close> has a zone ID between a no-break space (U+00A0) and an
  ideographic space (U+3000) followed by a line feed, a frequency of five seconds, a
  timeout of half a second, 500 workers and only the IPv4 flag. \<open>both_false_file\<close> sets
  both family flags to false. The zone ID of \<open>blank_zone_file\<close> is a no-break space and
  a space.
\<close>

definition unset_file :: Config where
  "unset_file =
     \<lparr>ZoneID = '' z1 '', Token = ''tok'', Frequency = 0, Verbose = False, IPv4 = None,
      IPv6 = None, Domains = [\<lparr>Hostname = ''a.example.com'', Proxied = None\<rparr>],
      WorkerCount = 0, Timeout = 0\<rparr>"

definition floor_file :: Config where
  "floor_file =
     \<lparr>ZoneID = [CHR 0xC2, CHR 0xA0] @ ''z1'' @ [CHR 0xE3, CHR 0x80, CHR 0x80, CHR 0x0A],
      Token = [CHR 0x09] @ ''tok '', Frequency = 5000000000, Verbose = True, IPv4 = Some True,
      IPv6 = None, Domains = [\<lparr>Hostname = ''a.example.com'', Proxied = Some False\<rparr>],
      WorkerCount = 500, Timeout = 500000000\<rparr>"

definition both_false_file :: Config where
  "both_false_file =
     \<lparr>ZoneID = ''z1'', Token = ''tok'', Frequency = 0, Verbose = False, IPv4 = Some False,
      IPv6 = Some False, Domains = [\<lparr>Hostname = ''a.example.com'', Proxied = None\<rparr>],
      WorkerCount = 0, Timeout = 0\<rparr>"

definition blank_zone_file :: Config where
  "blank_zone_file =
     \<lparr>ZoneID = [CHR 0xC2, CHR 0xA0, CHR 0x20], Token = ''tok'', Frequency = 0, Verbose = False,
      IPv4 = None, IPv6 = None, Domains = [\<lparr>Hostname = ''a.example.com'', Proxied = None\<rparr>],
      WorkerCount = 0, Timeout = 0\<rparr>"

section \<open>The public IP resolver (pkg/ipget)\<close>

text \<open>
  An HTTP response as \<open>getSmallText\<close> reads it: the status code, the bytes the body
  delivers, and \<open>BodyErr\<close>, the error with which the body stream fails after those bytes
  (\<open>None\<close> when it ends with EOF).
\<close>

record http_response =
  StatusCode :: int
  Body :: string
  BodyErr :: "error option"

text \<open>
  The network, outside the repository: \<open>NewRequestWithContext\<close> gives the error of
  building the request for a URL, if any; \<open>client_Do i url\<close> is the outcome of the request
  that the \<open>i\<close>-th turn of the resolver's loop sends to \<open>url\<close> (the outcome may differ from
  one turn to the next, also for one URL).
\<close>

record http_env =
  NewRequestWithContext :: "string \<Rightarrow> error option"
  client_Do :: "nat \<Rightarrow> string \<Rightarrow> error + http_response"

text \<open>
  \<open>io.ReadAll(io.LimitReader(resp.Body, n))\<close>: the limited reader reports EOF once \<open>n\<close>
  bytes are read and then no longer reads the body, so a failure of the stream is seen
  only when fewer than \<open>n\<close> bytes came before it.
\<close>

definition ReadAll_LimitReader :: "http_response \<Rightarrow> nat \<Rightarrow> error + string" where
  "ReadAll_LimitReader resp n =
     (if n \<le> length (Body resp) then Inr (take n (Body resp))
      else (case BodyErr resp of None \<Rightarrow> Inr (Body resp) | Some err \<Rightarrow> Inl err))"

definition StatusOK :: int where "StatusOK = 200"

definition getSmallText :: "http_env \<Rightarrow> nat \<Rightarrow> string \<Rightarrow> error + string" where
  "getSmallText env i url =
     (case NewRequestWithContext env url of
        Some err \<Rightarrow> Inl err
      | None \<Rightarrow>
          (case client_Do env i url of
             Inl err \<Rightarrow> Inl err
           | Inr resp \<Rightarrow>
               if StatusCode resp \<noteq> StatusOK then Inl (StatusError (StatusCode resp))
               else
                 (case ReadAll_LimitReader resp 128 of
                    Inl err \<Rightarrow> Inl err
                  | Inr body \<Rightarrow> Inr (TrimSpace body))))"

text \<open>
  A \<open>net.IP\<close> is a byte slice, \<open>None\<close> the nil slice. \<open>ParseIP\<close> and \<open>IP.String\<close> of package
  net are parameters; \<open>To4\<close> and \<open>To16\<close> are written out as package net has them.
\<close>

type_synonym IP = "8 word list"

record net_pkg =
  ParseIP :: "string \<Rightarrow> IP option"
  IP_String :: "IP \<Rightarrow> string"

definition v4InV6Prefix :: IP where
  "v4InV6Prefix = [0, 0, 0, 0, 0, 0, 0, 0, 0, 0, 0xff, 0xff]"

definition To4 :: "IP \<Rightarrow> IP option" where
  "To4 ip =
     (if length ip = 4 then Some ip
      else if length ip = 16 \<and> take 12 ip = v4InV6Prefix then Some (drop 12 ip)
      else None)"

definition To16 :: "IP \<Rightarrow> IP option" where
  "To16 ip =
     (if length ip = 4 then Some (v4InV6Prefix @ ip)
      else if length ip = 16 then Some ip
      else None)"

definition strToIP :: "net_pkg \<Rightarrow> string \<Rightarrow> IP option" where
  "strToIP net ipStr =
     (case ParseIP net ipStr of
        None \<Rightarrow> None
      | Some ip \<Rightarrow> (case To4 ip of Some ip4 \<Rightarrow> Some ip4 | None \<Rightarrow> To16 ip))"

definition context_error :: "error \<Rightarrow> bool" where
  "context_error err = (errors_Is err DeadlineExceeded \<or> errors_Is err Canceled)"

text \<open>
  The loop of \<open>getPublicIP\<close> over the shuffled services, from turn \<open>i\<close> on. Beside the
  result it gives the services a request was made to, in order.
\<close>

fun getPublicIP_loop :: "http_env \<Rightarrow> net_pkg \<Rightarrow> nat \<Rightarrow> string list \<Rightarrow> string list \<times> (error + string)" where
  "getPublicIP_loop env net i [] = ([], Inl (ErrorString ''could not retrieve public IP address''))"
| "getPublicIP_loop env net i (service # services) =
     (case getSmallText env i service of
        Inl err \<Rightarrow>
          if context_error err then ([service], Inl err)
          else (let (tried, res) = getPublicIP_loop env net (Suc i) services in (service # tried, res))
      | Inr ipStr \<Rightarrow>
          (case strToIP net ipStr of
             Some ip \<Rightarrow> ([service], Inr (IP_String net ip))
           | None \<Rightarrow>
               (let (tried, res) = getPublicIP_loop env net (Suc i) services in (service # tried, res))))"

text \<open>\<open>shuffle\<close> is the random permutation drawn by \<open>rand.Shuffle\<close>, a parameter.\<close>

definition getPublicIP :: "http_env \<Rightarrow> net_pkg \<Rightarrow> (string list \<Rightarrow> string list) \<Rightarrow> string list \<Rightarrow> string list \<times> (error + string)" where
  "getPublicIP env net shuffle services = getPublicIP_loop env net 0 (shuffle services)"

definition ipv4Services :: "string list" where
  "ipv4Services = [''https://api.ipify.org'', ''https://ipv4.icanhazip.com'', ''https://v4.ident.me'']"

definition ipv6Services :: "string list" where
  "ipv6Services = [''https://api6.ipify.org'', ''https://ipv6.icanhazip.com'', ''https://v6.ident.me'']"

definition GetPublicIPv4 :: "http_env \<Rightarrow> net_pkg \<Rightarrow> (string list \<Rightarrow> string list) \<Rightarrow> string list \<times> (error + string)" where
  "GetPublicIPv4 env net shuffle = getPublicIP env net shuffle ipv4Services"

definition GetPublicIPv6 :: "http_env \<Rightarrow> net_pkg \<Rightarrow> (string list \<Rightarrow> string list) \<Rightarrow> string list \<times> (error + string)" where
  "GetPublicIPv6 env net shuffle = getPublicIP env net shuffle ipv6Services"

text \<open>What the loop does with the provider of turn \<open>i\<close>: it goes on to the next one.\<close>

definition provider_skipped :: "http_env \<Rightarrow> net_pkg \<Rightarrow> nat \<Rightarrow> string \<Rightarrow> bool" where
  "provider_skipped env net i service =
     (case getSmallText env i service of
        Inl err \<Rightarrow> \<not> context_error err
      | Inr ipStr \<Rightarrow> strToIP net ipStr = None)"

subsection \<open>Dotted-decimal IPv4 addresses\<close>

text \<open>
  The IPv4 part of \<open>net.ParseIP\<close> and \<open>IP.String\<close>, for running the resolver on concrete
  responses: four decimal fields of one to three digits, without a leading zero, each at
  most 255, separated by dots; the parsed address has the 16-byte form.
\<close>

definition digit :: "char \<Rightarrow> bool" where
  "digit c = (48 \<le> (of_char c :: nat) \<and> (of_char c :: nat) \<le> 57)"

fun split_dots :: "string \<Rightarrow> string list" where
  "split_dots [] = [[]]"
| "split_dots (c # cs) =
     (if c = CHR ''.'' then [] # split_dots cs
      else (case split_dots cs of f # fs \<Rightarrow> (c # f) # fs | [] \<Rightarrow> [[c]]))"

definition decimal :: "string \<Rightarrow> nat" where
  "decimal ds = foldl (\<lambda>n c. 10 * n + (of_char c - 48)) 0 ds"

definition parse_field :: "string \<Rightarrow> 8 word option" where
  "parse_field f =
     (if f = [] \<or> 3 < length f \<or> \<not> list_all digit f then None
      else if 1 < length f \<and> hd f = CHR ''0'' then None
      else if 255 < decimal f then None
      else Some (of_nat (decimal f)))"

definition parse_ipv4 :: "string \<Rightarrow> IP option" where
  "parse_ipv4 s =
     (case map parse_field (split_dots s) of
        [Some a, Some b, Some c, Some d] \<Rightarrow> Some (v4InV6Prefix @ [a, b, c, d])
      | _ \<Rightarrow> None)"

definition show_nat :: "nat \<Rightarrow> string" where
  "show_nat n =
     (if n < 10 then [char_of (48 + n)]
      else if n < 100 then [char_of (48 + n div 10), char_of (48 + n mod 10)]
      else [char_of (48 + n div 100), char_of (48 + n div 10 mod 10), char_of (48 + n mod 10)])"

definition show_ipv4 :: "IP \<Rightarrow> string" where
  "show_ipv4 ip =
     (case ip of
        [a, b, c, d] \<Rightarrow>
          show_nat (unat a) @ ''.'' @ show_nat (unat b) @ ''.'' @ show_nat (unat c) @ ''.'' @ show_nat (unat d)
      | _ \<Rightarrow> [])"

definition ipv4_net :: net_pkg where
  "ipv4_net = \<lparr>ParseIP = parse_ipv4, IP_String = show_ipv4\<rparr>"

subsection \<open>Concrete networks\<close>

text \<open>
  Networks to run the resolver on. \<open>padded_env\<close> answers with 121 spaces followed by the
  address 1.2.3.45, 129 bytes in all. \<open>cut_env\<close> answers 200 and delivers the seven bytes
  of 1.2.3.4, then the body stream fails. \<open>nbsp_env\<close> answers the address 1.2.3.4 followed
  by a no-break space (U+00A0) and a line feed. In \<open>scenario_env\<close> the first provider tried answers
  503, the second a page that is no address and the third an address; in \<open>cancel_env\<close>
  the second request fails with the cancellation of the context; in \<open>down_env\<close> every
  request fails.
\<close>

definition padded_body :: string where
  "padded_body = replicate 121 (CHR '' '') @ ''1.2.3.45''"

definition padded_env :: http_env where
  "padded_env = \<lparr>NewRequestWithContext = (\<lambda>url. None),
     client_Do = (\<lambda>i url. Inr \<lparr>StatusCode = 200, Body = padded_body, BodyErr = None\<rparr>)\<rparr>"

definition scenario_env :: http_env where
  "scenario_env = \<lparr>NewRequestWithContext = (\<lambda>url. None),
     client_Do = (\<lambda>i url.
       if i = 0 then Inr \<lparr>StatusCode = 503, Body = ''busy'', BodyErr = None\<rparr>
       else if i = 1 then Inr \<lparr>StatusCode = 200, Body = ''<html>'', BodyErr = None\<rparr>
       else Inr \<lparr>StatusCode = 200, Body = ''203.0.113.9'' @ [CHR 0x0A], BodyErr = None\<rparr>)\<rparr>"

definition cancel_env :: http_env where
  "cancel_env = \<lparr>NewRequestWithContext = (\<lambda>url. None),
     client_Do = (\<lambda>i url.
       if i = 0 then Inr \<lparr>StatusCode = 503, Body = ''busy'', BodyErr = None\<rparr>
       else Inl (Wrapped ''Get'' Canceled))\<rparr>"

definition down_env :: http_env where
  "down_env = \<lparr>NewRequestWithContext = (\<lambda>url. None),
     client_Do = (\<lambda>i url. Inl (ErrorString ''connection refused''))\<rparr>"

definition cut_env :: http_env where
  "cut_env = \<lparr>NewRequestWithContext = (\<lambda>url. None),
     client_Do = (\<lambda>i url.
       Inr \<lparr>StatusCode = 200, Body = ''1.2.3.4'', BodyErr = Some (ErrorString ''unexpected EOF'')\<rparr>)\<rparr>"

definition nbsp_env :: http_env where
  "nbsp_env = \<lparr>NewRequestWithContext = (\<lambda>url. None),
     client_Do = (\<lambda>i url.
       Inr \<lparr>StatusCode = 200, Body = ''1.2.3.4'' @ [CHR 0xC2, CHR 0xA0, CHR 0x0A], BodyErr = None\<rparr>)\<rparr>"

section \<open>The reconciliation engine (pkg/cf)\<close>

definition RECORD_TYPE_IPV4 :: string where "RECORD_TYPE_IPV4 = ''A''"
definition RECORD_TYPE_IPV6 :: string where "RECORD_TYPE_IPV6 = ''AAAA''"

text \<open>The fields of \<open>cloudflare.DNSRecord\<close> that the engine reads; \<open>RecordProxied\<close> is a \<open>*bool\<close>.\<close>

record DNSRecord =
  ID :: string
  Name :: string
  Type :: string
  Content :: string
  RecordProxied :: "bool option"

text \<open>The calls made to the provider, with the zone and the parameters sent.\<close>

datatype api_call =
    ListDNSRecords string string string
  | CreateDNSRecord string string string string "bool option"
  | UpdateDNSRecord string string string "bool option"

text \<open>
  The provider, outside the repository: what a call returns. \<open>ListDNSRecords\<close> takes the
  zone, the name and the type; \<open>CreateDNSRecord\<close> the zone, name, content, type and
  proxied flag; \<open>UpdateDNSRecord n\<close> is the \<open>n\<close>-th update call of one \<open>checkAndUpdate\<close> and
  takes the zone, the record ID, the content and the proxied flag.
\<close>

record cloudflare =
  api_ListDNSRecords :: "string \<Rightarrow> string \<Rightarrow> string \<Rightarrow> error + DNSRecord list"
  api_CreateDNSRecord :: "string \<Rightarrow> string \<Rightarrow> string \<Rightarrow> string \<Rightarrow> bool option \<Rightarrow> error + DNSRecord"
  api_UpdateDNSRecord :: "nat \<Rightarrow> string \<Rightarrow> string \<Rightarrow> string \<Rightarrow> bool option \<Rightarrow> error + DNSRecord"

subsection \<open>The store and \<open>SetConfig\<close>\<close>

text \<open>
  The \<open>CFDNS\<close> struct. The API client is known by the token it was built from; \<open>pool\<close> is
  a pointer to a \<open>goropo.Pool\<close>, an index into the pools allocated so far.
\<close>

datatype API = API string

datatype RWMutex = Unlocked | Locked | RLocked

record CFDNS =
  mu :: RWMutex
  cfg :: Config
  api :: "API option"
  httpClient_Timeout :: int
  timeout :: int
  pool :: "nat option"

text \<open>
  Modelled from the spec: \<open>goropo.Pool\<close> is not part of the repository. A pool is made
  with a worker count and a queue size and is open until \<open>Close\<close> releases it. A pool
  handle held by the store points to an allocated pool; on any other index \<open>Pool_Close\<close>
  changes nothing.
\<close>

record Pool =
  workers :: int
  queue :: int
  closed :: bool

datatype Level = DebugLevel | InfoLevel

text \<open>The store, the pools allocated so far and the global log level of zerolog.\<close>

record world =
  cfdns :: CFDNS
  pools :: "Pool list"
  GlobalLevel :: Level

text \<open>Go's \<open>int\<close> has 64 bits; \<open>WorkerCount * 5\<close> wraps around.\<close>

definition wrap64 :: "int \<Rightarrow> int" where
  "wrap64 x = (x + 2 ^ 63) mod 2 ^ 64 - 2 ^ 63"

definition NewPool :: "int \<Rightarrow> int \<Rightarrow> world \<Rightarrow> nat \<times> world" where
  "NewPool w q s = (length (pools s), s\<lparr>pools := pools s @ [\<lparr>workers = w, queue = q, closed = False\<rparr>]\<rparr>)"

definition Pool_Close :: "nat \<Rightarrow> world \<Rightarrow> world" where
  "Pool_Close p s = s\<lparr>pools := (pools s)[p := (pools s ! p)\<lparr>closed := True\<rparr>]\<rparr>"

text \<open>
  \<open>SetConfig\<close>, statement by statement: \<open>SetConfig_trace\<close> gives the state after each
  statement that writes (taking the lock, the writes in the order of the source, the
  deferred unlock) and the error returned. \<open>NewWithAPIToken\<close> of cloudflare-go is a
  parameter. With a nil configuration nothing is executed.
\<close>

definition SetConfig_trace :: "(string \<Rightarrow> error + API) \<Rightarrow> Config option \<Rightarrow> world \<Rightarrow> world list \<times> error option" where
  "SetConfig_trace NewWithAPIToken cfg_ptr s =
     (case cfg_ptr of
        None \<Rightarrow> ([], None)
      | Some c \<Rightarrow>
          (let s1 = s\<lparr>cfdns := (cfdns s)\<lparr>mu := Locked\<rparr>\<rparr> in
           case NewWithAPIToken (Token c) of
             Inl err \<Rightarrow> ([s1, s1\<lparr>cfdns := (cfdns s1)\<lparr>mu := Unlocked\<rparr>\<rparr>], Some err)
           | Inr a \<Rightarrow>
               (let s2 = s1\<lparr>cfdns := (cfdns s1)\<lparr>api := Some a\<rparr>\<rparr>;
                    s3 = s2\<lparr>cfdns := (cfdns s2)\<lparr>httpClient_Timeout := Timeout c\<rparr>\<rparr>;
                    s4 = (case pool (cfdns s3) of None \<Rightarrow> s3 | Some p \<Rightarrow> Pool_Close p s3);
                    s5 = s4\<lparr>cfdns := (cfdns s4)\<lparr>timeout := Timeout c\<rparr>\<rparr>;
                    (p', s5') = NewPool (WorkerCount c) (wrap64 (WorkerCount c * 5)) s5;
                    s6 = s5'\<lparr>cfdns := (cfdns s5')\<lparr>pool := Some p'\<rparr>\<rparr>;
                    s7 = s6\<lparr>GlobalLevel := (if Verbose c then DebugLevel else InfoLevel)\<rparr>;
                    s8 = s7\<lparr>cfdns := (cfdns s7)\<lparr>cfg := c\<rparr>\<rparr>;
                    s9 = s8\<lparr>cfdns := (cfdns s8)\<lparr>mu := Unlocked\<rparr>\<rparr>
                in ([s1, s2, s3, s4, s5, s6, s7, s8, s9], None))))"

definition SetConfig :: "(string \<Rightarrow> error + API) \<Rightarrow> Config option \<Rightarrow> world \<Rightarrow> world \<times> error option" where
  "SetConfig NewWithAPIToken cfg_ptr s =
     (case SetConfig_trace NewWithAPIToken cfg_ptr s of
        ([], err) \<Rightarrow> (s, err)
      | (t # ts, err) \<Rightarrow> (last (t # ts), err))"

subsection \<open>\<open>checkAndUpdate\<close>\<close>

text \<open>
  The loop over the existing records; \<open>n\<close> counts the update calls made so far. The
  result is the calls made and the error returned (\<open>None\<close> is nil). The pointers
  \<open>record.Proxied\<close> and \<open>domain.Proxied\<close> are dereferenced only behind their nil tests.
\<close>

fun update_records :: "cloudflare \<Rightarrow> CFDNS \<Rightarrow> Domain \<Rightarrow> string \<Rightarrow> nat \<Rightarrow> DNSRecord list \<Rightarrow> api_call list \<times> error option" where
  "update_records cf c domain address n [] = ([], None)"
| "update_records cf c domain address n (record # records) =
     (if Content record = address \<and>
         (RecordProxied record = None \<or> Proxied domain = None \<or>
          the (RecordProxied record) = the (Proxied domain))
      then ([], None)
      else
        (case api_UpdateDNSRecord cf n (ZoneID (cfg c)) (ID record) address (Proxied domain) of
           Inl err \<Rightarrow> ([UpdateDNSRecord (ZoneID (cfg c)) (ID record) address (Proxied domain)], Some err)
         | Inr recordNew \<Rightarrow>
             (let (calls, err) = update_records cf c domain address (Suc n) records
              in (UpdateDNSRecord (ZoneID (cfg c)) (ID record) address (Proxied domain) # calls, err))))"

definition getRecords :: "cloudflare \<Rightarrow> CFDNS \<Rightarrow> string \<Rightarrow> string \<Rightarrow> error + DNSRecord list" where
  "getRecords cf c hostname recordType = api_ListDNSRecords cf (ZoneID (cfg c)) hostname recordType"

definition checkAndUpdate :: "cloudflare \<Rightarrow> CFDNS \<Rightarrow> Domain \<Rightarrow> string \<Rightarrow> string \<Rightarrow> api_call list \<times> error option" where
  "checkAndUpdate cf c domain recordType address =
     (let list_call = ListDNSRecords (ZoneID (cfg c)) (Hostname domain) recordType in
      case getRecords cf c (Hostname domain) recordType of
        Inl err \<Rightarrow> ([list_call], Some err)
      | Inr records \<Rightarrow>
          if length records = 0 then
            (let create_call = CreateDNSRecord (ZoneID (cfg c)) (Hostname domain) address recordType (Proxied domain) in
             case api_CreateDNSRecord cf (ZoneID (cfg c)) (Hostname domain) address recordType (Proxied domain) of
               Inl err \<Rightarrow> ([list_call, create_call], Some err)
             | Inr recordNew \<Rightarrow> ([list_call, create_call], None))
          else
            (let (calls, err) = update_records cf c domain address 0 records
             in (list_call # calls, err)))"

text \<open>
  The comparison as the specification words it: the content equals the address, and the
  proxied flags agree or one of them is unspecified.
\<close>

definition proxied_comparison :: "bool option \<Rightarrow> bool option \<Rightarrow> bool" where
  "proxied_comparison remote requested =
     (case remote of
        None \<Rightarrow> True
      | Some r \<Rightarrow> (case requested of None \<Rightarrow> True | Some d \<Rightarrow> r = d))"

definition is_match :: "string \<Rightarrow> Domain \<Rightarrow> DNSRecord \<Rightarrow> bool" where
  "is_match address domain record =
     (Content record = address \<and> proxied_comparison (RecordProxied record) (Proxied domain))"

text \<open>The update call that \<open>checkAndUpdate\<close> issues for a record.\<close>

definition update_call :: "CFDNS \<Rightarrow> Domain \<Rightarrow> string \<Rightarrow> DNSRecord \<Rightarrow> api_call" where
  "update_call c domain address record =
     UpdateDNSRecord (ZoneID (cfg c)) (ID record) address (Proxied domain)"

subsection \<open>\<open>ZoneIsValid\<close>, \<open>getPublicIPs\<close> and \<open>Process\<close>\<close>

text \<open>
  \<open>zones\<close> is what awaiting the \<open>ListZones\<close> task gives (the IDs of the zones, or the error
  of the call, of the pool or of the context).
\<close>

definition ZoneIsValid :: "CFDNS \<Rightarrow> error + string list \<Rightarrow> bool \<times> error option" where
  "ZoneIsValid c zones =
     (case zones of
        Inl err \<Rightarrow> (False, Some err)
      | Inr zs \<Rightarrow> (if list_ex (\<lambda>zone. zone = ZoneID (cfg c)) zs then (True, None) else (False, None)))"

text \<open>
  \<open>await4\<close> and \<open>await6\<close> are what awaiting the two resolver tasks gives. The flags
  \<open>cfg.IPv4\<close> and \<open>cfg.IPv6\<close> are dereferenced: on a nil pointer the function panics
  (\<open>None\<close>).
\<close>

definition getPublicIPs :: "CFDNS \<Rightarrow> error + string \<Rightarrow> error + string \<Rightarrow> (string \<times> string) option" where
  "getPublicIPs c await4 await6 =
     (case IPv4 (cfg c) of
        None \<Rightarrow> None
      | Some use4 \<Rightarrow>
          (case IPv6 (cfg c) of
             None \<Rightarrow> None
           | Some use6 \<Rightarrow>
               (let ipv4 = (if use4 then (case await4 of Inl err \<Rightarrow> [] | Inr v \<Rightarrow> v) else []);
                    ipv6 = (if use6 then (case await6 of Inl err \<Rightarrow> [] | Inr v \<Rightarrow> v) else [])
                in Some (ipv4, ipv6))))"

text \<open>A task submitted to the pool: \<open>checkAndUpdate\<close> of a domain, a record type and an address.\<close>

record task =
  task_domain :: Domain
  task_recordType :: string
  task_address :: string

fun submit_tasks :: "bool \<Rightarrow> bool \<Rightarrow> string \<Rightarrow> string \<Rightarrow> Domain list \<Rightarrow> task list" where
  "submit_tasks use4 use6 ipv4 ipv6 [] = []"
| "submit_tasks use4 use6 ipv4 ipv6 (domain # domains) =
     (if use4 \<and> ipv4 \<noteq> []
      then [\<lparr>task_domain = domain, task_recordType = RECORD_TYPE_IPV4, task_address = ipv4\<rparr>] else [])
     @ (if use6 \<and> ipv6 \<noteq> []
        then [\<lparr>task_domain = domain, task_recordType = RECORD_TYPE_IPV6, task_address = ipv6\<rparr>] else [])
     @ submit_tasks use4 use6 ipv4 ipv6 domains"

text \<open>One cycle: the tasks submitted, in order; \<open>None\<close> is a panic.\<close>

definition Process :: "CFDNS \<Rightarrow> error + string list \<Rightarrow> error + string \<Rightarrow> error + string \<Rightarrow> task list option" where
  "Process c zones await4 await6 =
     (case ZoneIsValid c zones of
        (valid, Some err) \<Rightarrow> Some []
      | (valid, None) \<Rightarrow>
          if \<not> valid then Some []
          else
            (case getPublicIPs c await4 await6 of
               None \<Rightarrow> None
             | Some (ipv4, ipv6) \<Rightarrow>
                 (case IPv4 (cfg c) of
                    None \<Rightarrow> None
                  | Some use4 \<Rightarrow>
                      (case IPv6 (cfg c) of
                         None \<Rightarrow> None
                       | Some use6 \<Rightarrow> Some (submit_tasks use4 use6 ipv4 ipv6 (Domains (cfg c)))))))"

subsection \<open>Concrete stores, records and providers\<close>

text \<open>
  A store for the zone \<open>zone1\<close> and three records of \<open>a.example.com\<close>: \<open>rec_current\<close> holds
  the address 203.0.113.9, the other two hold other addresses. \<open>duplicates_cf\<close> lists
  \<open>rec_current\<close> before \<open>rec_stale\<close> and \<open>reversed_cf\<close> lists them the other way round; in both
  every call succeeds, as in \<open>single_cf\<close>, which lists \<open>rec_current\<close> alone. \<open>failing_cf\<close>
  lists the two stale records and fails every update.
\<close>

definition example_cfg :: Config where
  "example_cfg =
     \<lparr>ZoneID = ''zone1'', Token = ''tok'', Frequency = 3600000000000, Verbose = False,
      IPv4 = Some True, IPv6 = Some True,
      Domains = [\<lparr>Hostname = ''a.example.com'', Proxied = None\<rparr>, \<lparr>Hostname = ''b.example.com'', Proxied = Some True\<rparr>],
      WorkerCount = 10, Timeout = 10000000000\<rparr>"

definition example_cfdns :: CFDNS where
  "example_cfdns =
     \<lparr>mu = Unlocked, cfg = example_cfg, api = Some (API ''tok''),
      httpClient_Timeout = 10000000000, timeout = 10000000000, pool = Some 0\<rparr>"

definition example_domain :: Domain where
  "example_domain = \<lparr>Hostname = ''a.example.com'', Proxied = None\<rparr>"

definition rec_current :: DNSRecord where
  "rec_current =
     \<lparr>ID = ''rec1'', Name = ''a.example.com'', Type = ''A'', Content = ''203.0.113.9'',
      RecordProxied = Some True\<rparr>"

definition rec_stale :: DNSRecord where
  "rec_stale =
     \<lparr>ID = ''rec2'', Name = ''a.example.com'', Type = ''A'', Content = ''198.51.100.7'',
      RecordProxied = Some True\<rparr>"

definition rec_other :: DNSRecord where
  "rec_other =
     \<lparr>ID = ''rec3'', Name = ''a.example.com'', Type = ''A'', Content = ''192.0.2.1'',
      RecordProxied = Some True\<rparr>"

definition echo_record :: "string \<Rightarrow> string \<Rightarrow> bool option \<Rightarrow> DNSRecord" where
  "echo_record i content proxied =
     \<lparr>ID = i, Name = ''a.example.com'', Type = ''A'', Content = content, RecordProxied = proxied\<rparr>"

definition duplicates_cf :: cloudflare where
  "duplicates_cf =
     \<lparr>api_ListDNSRecords = (\<lambda>zone name type. Inr [rec_current, rec_stale]),
      api_CreateDNSRecord = (\<lambda>zone name content type proxied. Inr (echo_record ''new'' content proxied)),
      api_UpdateDNSRecord = (\<lambda>n zone i content proxied. Inr (echo_record i content proxied))\<rparr>"

definition reversed_cf :: cloudflare where
  "reversed_cf =
     \<lparr>api_ListDNSRecords = (\<lambda>zone name type. Inr [rec_stale, rec_current]),
      api_CreateDNSRecord = (\<lambda>zone name content type proxied. Inr (echo_record ''new'' content proxied)),
      api_UpdateDNSRecord = (\<lambda>n zone i content proxied. Inr (echo_record i content proxied))\<rparr>"

definition failing_cf :: cloudflare where
  "failing_cf =
     \<lparr>api_ListDNSRecords = (\<lambda>zone name type. Inr [rec_stale, rec_other]),
      api_CreateDNSRecord = (\<lambda>zone name content type proxied. Inl (ErrorString ''create failed'')),
      api_UpdateDNSRecord = (\<lambda>n zone i content proxied. Inl (ErrorString ''update failed''))\<rparr>"

definition single_cf :: cloudflare where
  "single_cf =
     \<lparr>api_ListDNSRecords = (\<lambda>zone name type. Inr [rec_current]),
      api_CreateDNSRecord = (\<lambda>zone name content type proxied. Inr (echo_record ''new'' content proxied)),
      api_UpdateDNSRecord = (\<lambda>n zone i content proxied. Inr (echo_record i content proxied))\<rparr>"

text \<open>
  \<open>token_client\<close> builds a client as \<open>NewWithAPIToken\<close> of cloudflare-go does, which
  rejects the empty token. \<open>example_world\<close> is the example store with one open pool;
  \<open>replacement_cfg\<close> is a new configuration for it.
\<close>

definition token_client :: "string \<Rightarrow> error + API" where
  "token_client token =
     (if token = [] then Inl (ErrorString ''invalid credentials: API Token must not be empty'')
      else Inr (API token))"

definition example_world :: world where
  "example_world =
     \<lparr>cfdns = example_cfdns, pools = [\<lparr>workers = 10, queue = 50, closed = False\<rparr>],
      GlobalLevel = InfoLevel\<rparr>"

definition replacement_cfg :: Config where
  "replacement_cfg = example_cfg\<lparr>Token := ''tok2'', WorkerCount := 4\<rparr>"

section \<open>Properties of the watcher\<close>

lemma Changed_iff:
  "Changed fs1 fs2 \<longleftrightarrow>
     (\<exists>a b. fs1 = Some a \<and> fs2 = Some b \<and>
        (ModTime a < ModTime b \<or> Size b \<noteq> Size a \<or> Inode b \<noteq> Inode a))"
  by (simp add: Changed_def split: option.splits)

lemma try_send_not_NoSend: "snd (try_send w) \<noteq> NoSend"
  by (simp add: try_send_def)

lemma watch_tick_emits_iff:
  "snd (watch_tick w st) \<noteq> NoSend \<longleftrightarrow> Changed (fileSig w) (getFileSig st)"
  by (auto simp: watch_tick_def Let_def try_send_not_NoSend Changed_def split: option.splits)

lemma watch_tick_seed:
  "fileSig w = None \<Longrightarrow> getFileSig st = Some s \<Longrightarrow>
     watch_tick w st = (w\<lparr>fileSig := Some s\<rparr>, NoSend)"
  by (simp add: watch_tick_def)

lemma watch_loop_snoc_Tick:
  "CtxDone \<notin> set pre \<Longrightarrow>
     watch_loop w (pre @ [Tick st]) =
       (fst (watch_tick (fst (watch_loop w pre)) st),
        snd (watch_loop w pre) @ [snd (watch_tick (fst (watch_loop w pre)) st)])"
proof (induction pre arbitrary: w)
  case Nil
  then show ?case by (simp add: split_def Let_def)
next
  case (Cons ev pre)
  then show ?case by (cases ev) (simp_all add: split_def Let_def)
qed

lemma watch_tick_fileSig_None:
  "fileSig (fst (watch_tick w st)) = None \<Longrightarrow> fileSig w = None \<and> snd (watch_tick w st) = NoSend"
  by (auto simp: watch_tick_def Let_def try_send_def split: if_splits)

lemma watch_loop_fileSig_None:
  "CtxDone \<notin> set evs \<Longrightarrow> fileSig (fst (watch_loop w evs)) = None \<Longrightarrow>
     fileSig w = None \<and> set (snd (watch_loop w evs)) \<subseteq> {NoSend}"
proof (induction evs arbitrary: w)
  case Nil
  then show ?case by simp
next
  case (Cons ev evs)
  show ?case
  proof (cases ev)
    case CtxDone
    with Cons.prems show ?thesis by simp
  next
    case (Tick st)
    with Cons.prems have "fileSig (fst (watch_loop (fst (watch_tick w st)) evs)) = None"
      by (simp add: split_def Let_def)
    with Cons.IH [of "fst (watch_tick w st)"] Cons.prems
    have "fileSig (fst (watch_tick w st)) = None"
      and "set (snd (watch_loop (fst (watch_tick w st)) evs)) \<subseteq> {NoSend}"
      by simp_all
    with watch_tick_fileSig_None [of w st] Tick show ?thesis
      by (simp add: split_def Let_def)
  next
    case Recv
    with Cons.prems Cons.IH [of "w\<lparr>ch_len := ch_len w - 1\<rparr>"] show ?thesis by simp
  qed
qed

text \<open>
  C8. The predicate \<open>Changed\<close> holds exactly when both signatures are there and the new
  modification time is strictly after the old one, or the sizes differ, or the inodes
  differ (so it is false when either signature is nil). After any events \<open>pre\<close> that did
  not stop the watcher, the next tick tries to send a notification exactly when \<open>Changed\<close>
  holds between the stored signature and the one observed at that tick. When no signature
  is stored yet, nothing has been sent so far, and a tick that observes a signature stores
  it and sends nothing.
\<close>

theorem C8_watcher_change_predicate:
  "(Changed fs1 fs2 \<longleftrightarrow>
      (\<exists>a b. fs1 = Some a \<and> fs2 = Some b \<and>
         (ModTime a < ModTime b \<or> Size b \<noteq> Size a \<or> Inode b \<noteq> Inode a)))
   \<and> (CtxDone \<notin> set pre \<longrightarrow>
        (last (snd (watchFile st0 (pre @ [Tick st]))) \<noteq> NoSend \<longleftrightarrow>
           Changed (fileSig (fst (watchFile st0 pre))) (getFileSig st)))
   \<and> (CtxDone \<notin> set pre \<and> fileSig (fst (watchFile st0 pre)) = None \<and> getFileSig st = Some s \<longrightarrow>
        set (snd (watchFile st0 pre)) \<subseteq> {NoSend}
        \<and> last (snd (watchFile st0 (pre @ [Tick st]))) = NoSend
        \<and> fileSig (fst (watchFile st0 (pre @ [Tick st]))) = Some s)"
proof (intro conjI impI)
  show "Changed fs1 fs2 \<longleftrightarrow>
      (\<exists>a b. fs1 = Some a \<and> fs2 = Some b \<and>
         (ModTime a < ModTime b \<or> Size b \<noteq> Size a \<or> Inode b \<noteq> Inode a))"
    by (rule Changed_iff)
next
  assume "CtxDone \<notin> set pre"
  then show "last (snd (watchFile st0 (pre @ [Tick st]))) \<noteq> NoSend \<longleftrightarrow>
           Changed (fileSig (fst (watchFile st0 pre))) (getFileSig st)"
    by (simp add: watchFile_def watch_loop_snoc_Tick watch_tick_emits_iff)
next
  assume a: "CtxDone \<notin> set pre \<and> fileSig (fst (watchFile st0 pre)) = None \<and> getFileSig st = Some s"
  then have "fileSig (fst (watch_loop \<lparr>fileSig = getFileSig st0, ch_len = 0, ch_closed = False\<rparr> pre)) = None"
    by (simp add: watchFile_def)
  with a show "set (snd (watchFile st0 pre)) \<subseteq> {NoSend}"
    using watch_loop_fileSig_None [of pre "\<lparr>fileSig = getFileSig st0, ch_len = 0, ch_closed = False\<rparr>"]
    unfolding watchFile_def by blast
  from a show "last (snd (watchFile st0 (pre @ [Tick st]))) = NoSend"
    by (simp add: watchFile_def watch_loop_snoc_Tick watch_tick_seed)
  from a show "fileSig (fst (watchFile st0 (pre @ [Tick st]))) = Some s"
    by (simp add: watchFile_def watch_loop_snoc_Tick watch_tick_seed)
qed

theorem C8_watcher_change_predicate_witness:
  "Changed (Some \<lparr>ModTime = 5, Size = 10, Inode = 7\<rparr>) (Some \<lparr>ModTime = 5, Size = 11, Inode = 7\<rparr>)
   \<and> last (snd (watchFile (Inr \<lparr>fi_ModTime = 5, fi_Size = 10, fi_Sys = Some 7\<rparr>)
        ([Recv] @ [Tick (Inr \<lparr>fi_ModTime = 6, fi_Size = 10, fi_Sys = Some 7\<rparr>)]))) \<noteq> NoSend
   \<and> last (snd (watchFile (Inl (ErrorString ''stat''))
        ([Tick (Inl (ErrorString ''stat''))] @ [Tick (Inr \<lparr>fi_ModTime = 6, fi_Size = 10, fi_Sys = Some 7\<rparr>)]))) = NoSend"
  using C8_watcher_change_predicate
    [of "Some \<lparr>ModTime = 5, Size = 10, Inode = 7\<rparr>" "Some \<lparr>ModTime = 5, Size = 11, Inode = 7\<rparr>"
        "[Recv]" "Inr \<lparr>fi_ModTime = 5, fi_Size = 10, fi_Sys = Some 7\<rparr>"
        "Inr \<lparr>fi_ModTime = 6, fi_Size = 10, fi_Sys = Some 7\<rparr>"]
    C8_watcher_change_predicate
    [of None None "[Tick (Inl (ErrorString ''stat''))]" "Inl (ErrorString ''stat'')"
        "Inr \<lparr>fi_ModTime = 6, fi_Size = 10, fi_Sys = Some 7\<rparr>" "\<lparr>ModTime = 6, Size = 10, Inode = 7\<rparr>"]
  by (simp add: Changed_def getFileSig_def watchFile_def watch_tick_def)

section \<open>Properties of \<open>TrimSpace\<close>\<close>

lemma trim_runes_unchanged: "\<not> starts_rune p1 p2 p3 s \<Longrightarrow> trim_runes p1 p2 p3 s = s"
  by (induction p1 p2 p3 s rule: trim_runes.induct) auto

lemma trim_runes_not_starts: "\<not> starts_rune p1 p2 p3 (trim_runes p1 p2 p3 s)"
  by (induction p1 p2 p3 s rule: trim_runes.induct) auto

lemma trim_runes_idem: "trim_runes p1 p2 p3 (trim_runes p1 p2 p3 s) = trim_runes p1 p2 p3 s"
  by (simp add: trim_runes_unchanged trim_runes_not_starts)

lemma trim_runes_suffix: "\<exists>p. s = p @ trim_runes p1 p2 p3 s"
proof (induction p1 p2 p3 s rule: trim_runes.induct)
  case (1 p1 p2 p3)
  then show ?case by simp
next
  case (2 p1 p2 p3 c1)
  then show ?case by simp
next
  case (3 p1 p2 p3 c1 c2)
  then show ?case by (auto intro: exI [of _ "[c1]"] exI [of _ "[c1, c2]"] exI [of _ "[]"])
next
  case (4 p1 p2 p3 c1 c2 c3 cs)
  show ?case
  proof (cases "p1 c1")
    case True
    with 4 obtain p where "c2 # c3 # cs = p @ trim_runes p1 p2 p3 (c2 # c3 # cs)" by blast
    then have "c1 # c2 # c3 # cs = (c1 # p) @ trim_runes p1 p2 p3 (c2 # c3 # cs)" by simp
    with True show ?thesis by (metis trim_runes.simps(4))
  next
    case n1: False
    show ?thesis
    proof (cases "p2 c1 c2")
      case True
      with n1 4 obtain p where "c3 # cs = p @ trim_runes p1 p2 p3 (c3 # cs)" by blast
      then have "c1 # c2 # c3 # cs = (c1 # c2 # p) @ trim_runes p1 p2 p3 (c3 # cs)" by simp
      with n1 True show ?thesis by (metis trim_runes.simps(4))
    next
      case n2: False
      show ?thesis
      proof (cases "p3 c1 c2 c3")
        case True
        with n1 n2 4 obtain p where "cs = p @ trim_runes p1 p2 p3 cs" by blast
        then have "c1 # c2 # c3 # cs = (c1 # c2 # c3 # p) @ trim_runes p1 p2 p3 cs" by simp
        with n1 n2 True show ?thesis by (metis trim_runes.simps(4))
      next
        case False
        with n1 n2 show ?thesis by simp
      qed
    qed
  qed
qed

lemma starts_rune_append: "starts_rune p1 p2 p3 u \<Longrightarrow> starts_rune p1 p2 p3 (u @ r)"
proof (induction p1 p2 p3 u rule: starts_rune.induct)
  case (1 p1 p2 p3)
  then show ?case by simp
next
  case (2 p1 p2 p3 c1)
  show ?case
  proof (cases r)
    case Nil
    with 2 show ?thesis by simp
  next
    case (Cons a rs)
    with 2 show ?thesis by (cases rs) auto
  qed
next
  case (3 p1 p2 p3 c1 c2)
  then show ?case by (cases r) auto
next
  case (4 p1 p2 p3 c1 c2 c3 cs)
  then show ?case by simp
qed


lemma TrimLeft_suffix: "\<exists>p. s = p @ TrimLeft s"
  unfolding TrimLeft_def by (rule trim_runes_suffix)

lemma TrimRight_prefix: "\<exists>r. s = TrimRight s @ r"
proof -
  obtain p where "rev s = p @ trim_runes asciiSpace (\<lambda>c2 c1. space2 c1 c2) (\<lambda>c3 c2 c1. space3 c1 c2 c3) (rev s)"
    using trim_runes_suffix by blast
  then have "rev (rev s) = rev (p @ trim_runes asciiSpace (\<lambda>c2 c1. space2 c1 c2) (\<lambda>c3 c2 c1. space3 c1 c2 c3) (rev s))"
    by simp
  then have "s = TrimRight s @ rev p" by (simp add: TrimRight_def)
  then show ?thesis ..
qed

lemma TrimRight_idem: "TrimRight (TrimRight s) = TrimRight s"
  by (simp add: TrimRight_def trim_runes_idem)

lemma TrimLeft_TrimRight_TrimLeft: "TrimLeft (TrimRight (TrimLeft s)) = TrimRight (TrimLeft s)"
proof -
  obtain r where r: "TrimLeft s = TrimRight (TrimLeft s) @ r" using TrimRight_prefix by blast
  have "\<not> starts_rune asciiSpace space2 space3 (TrimLeft s)"
    unfolding TrimLeft_def by (rule trim_runes_not_starts)
  with r starts_rune_append [of asciiSpace space2 space3 "TrimRight (TrimLeft s)" r]
  have "\<not> starts_rune asciiSpace space2 space3 (TrimRight (TrimLeft s))" by auto
  then show ?thesis unfolding TrimLeft_def [of "TrimRight _"] by (rule trim_runes_unchanged)
qed

lemma TrimSpace_idem: "TrimSpace (TrimSpace s) = TrimSpace s"
  by (simp add: TrimSpace_def TrimLeft_TrimRight_TrimLeft TrimRight_idem)

lemma length_TrimSpace: "length (TrimSpace s) \<le> length s"
proof -
  obtain p where p: "s = p @ TrimLeft s" using TrimLeft_suffix by blast
  obtain r where r: "TrimLeft s = TrimRight (TrimLeft s) @ r" using TrimRight_prefix by blast
  have "length s = length p + length (TrimLeft s)" using p by (metis length_append)
  moreover have "length (TrimLeft s) = length (TrimSpace s) + length r"
    using r by (metis TrimSpace_def length_append)
  ultimately show ?thesis by simp
qed


section \<open>Properties of the configuration loader\<close>

lemma reEnv_prefix_Some:
  assumes "reEnv_prefix s = Some (name, rest)"
  shows "s = match_text name @ rest \<and> valid_name name"
proof -
  from assms obtain c1 c2 c3 cs where s: "s = c1 # c2 # c3 # cs"
    by (cases s rule: reEnv_prefix.cases) auto
  with assms have h: "c1 = CHR ''$''" "c2 = CHR ''{''" "name_start c3"
    and d: "dropWhile name_char cs = CHR ''}'' # rest" and n: "name = c3 # takeWhile name_char cs"
    by (auto split: if_splits list.splits)
  have "cs = takeWhile name_char cs @ dropWhile name_char cs" by simp
  with d have "cs = takeWhile name_char cs @ CHR ''}'' # rest" by simp
  with s h n have "s = match_text name @ rest" by (simp add: match_text_def)
  moreover have "valid_name name"
    using h n by (simp add: valid_name_def list_all_iff) (meson set_takeWhileD)
  ultimately show ?thesis by simp
qed

lemma not_name_char_brace: "\<not> name_char (CHR ''}'')"
  by (simp add: name_char_def name_start_def)

lemma reEnv_prefix_match_text:
  assumes "valid_name name"
  shows "reEnv_prefix (match_text name @ rest) = Some (name, rest)"
proof -
  from assms obtain c cs where n: "name = c # cs" "name_start c" "list_all name_char cs"
    by (auto simp: valid_name_def split: list.splits)
  then have a: "\<forall>x\<in>set cs. name_char x" by (simp add: list_all_iff)
  have "dropWhile name_char (cs @ CHR ''}'' # rest) = CHR ''}'' # rest"
    using a not_name_char_brace by (simp add: dropWhile_append3)
  moreover have "takeWhile name_char (cs @ CHR ''}'' # rest) = cs"
    using a not_name_char_brace by (simp add: takeWhile_tail)
  ultimately show ?thesis using n by (simp add: match_text_def)
qed

lemma FindStringSubmatch_1_match_text:
  "valid_name name \<Longrightarrow> FindStringSubmatch_1 (match_text name) = Some name"
  using reEnv_prefix_match_text [of name "[]"] by (simp add: match_text_def)

lemma reEnv_split_text: "concat (map piece_text (reEnv_split s)) = s"
proof (induction s rule: reEnv_split.induct)
  case 1
  then show ?case by simp
next
  case (2 c cs)
  show ?case
  proof (cases "reEnv_prefix (c # cs)")
    case None
    with 2 show ?thesis by simp
  next
    case (Some a)
    obtain name rest where a: "a = (name, rest)" by (cases a)
    with Some 2 have ih: "concat (map piece_text (reEnv_split rest)) = rest" by simp
    from Some a have "reEnv_split (c # cs) = Match name # reEnv_split rest" by simp
    with ih have "concat (map piece_text (reEnv_split (c # cs))) = match_text name @ rest" by simp
    moreover from Some a reEnv_prefix_Some [of "c # cs" name rest]
    have "c # cs = match_text name @ rest" by simp
    ultimately show ?thesis by metis
  qed
qed

lemma reEnv_split_valid: "Match name \<in> set (reEnv_split s) \<Longrightarrow> valid_name name"
proof (induction s rule: reEnv_split.induct)
  case 1
  then show ?case by simp
next
  case (2 c cs)
  show ?case
  proof (cases "reEnv_prefix (c # cs)")
    case None
    with 2 show ?thesis by simp
  next
    case (Some a)
    obtain n rest where a: "a = (n, rest)" by (cases a)
    with Some 2 reEnv_prefix_Some [of "c # cs" n rest] show ?thesis by auto
  qed
qed

lemma replace_pieces_expandEnv:
  "(\<forall>name. Match name \<in> set ps \<longrightarrow> valid_name name) \<Longrightarrow>
   replace_pieces (expandEnv_repl env) ps missing =
     Some (concat (map (\<lambda>p. case p of Lit c \<Rightarrow> [c]
                      | Match name \<Rightarrow> (case env name of None \<Rightarrow> [] | Some val \<Rightarrow> val)) ps),
           missing \<union> {n \<in> set (concat (map (\<lambda>p. case p of Lit c \<Rightarrow> [] | Match name \<Rightarrow> [name]) ps)). env n = None})"
proof (induction ps arbitrary: missing)
  case Nil
  then show ?case by simp
next
  case (Cons p ps)
  show ?case
  proof (cases p)
    case (Lit c)
    with Cons show ?thesis by simp
  next
    case (Match name)
    with Cons.prems have v: "valid_name name" by simp
    show ?thesis
    proof (cases "env name")
      case None
      with Match v Cons.IH [of "insert name missing"] Cons.prems show ?thesis
        by (auto simp: expandEnv_repl_def FindStringSubmatch_1_match_text)
    next
      case (Some val)
      with Match v Cons.IH [of missing] Cons.prems show ?thesis
        by (auto simp: expandEnv_repl_def FindStringSubmatch_1_match_text)
    qed
  qed
qed

lemma expandEnv_eq:
  "expandEnv env data =
     Some (if \<exists>n\<in>set (references data). env n = None
           then Inl (MissingEnv {n \<in> set (references data). env n = None})
           else Inr (substitute env data))"
proof -
  have "replace_pieces (expandEnv_repl env) (reEnv_split data) {} =
     Some (substitute env data, {} \<union> {n \<in> set (references data). env n = None})"
    unfolding substitute_def references_def
    by (rule replace_pieces_expandEnv) (simp add: reEnv_split_valid)
  then show ?thesis
    by (auto simp: expandEnv_def ReplaceAllStringFunc_def)
qed

lemma check_families_not_MissingEnv: "check_families c \<noteq> Some (Inl (MissingEnv names))"
  by (simp add: check_families_def split: option.splits)

lemma LoadConfig_checks_not_MissingEnv: "LoadConfig_checks c \<noteq> Some (Inl (MissingEnv names))"
  by (simp add: LoadConfig_checks_def Let_def check_families_not_MissingEnv)

lemma default_frequency_eq:
  "default_frequency c =
     c\<lparr>Frequency := (if Frequency c = 0 then DEFAULT_FREQUENCY
                      else if Frequency c < MINIMUM_FREQUENCY then MINIMUM_FREQUENCY else Frequency c)\<rparr>"
  by (simp add: default_frequency_def DEFAULT_FREQUENCY_def MINIMUM_FREQUENCY_def Hour_def Minute_def Second_def)

lemma default_timeout_eq:
  "default_timeout c =
     c\<lparr>Timeout := (if Timeout c = 0 then DEFAULT_TIMEOUT
                    else if Timeout c < MINIMUM_TIMEOUT then MINIMUM_TIMEOUT else Timeout c)\<rparr>"
  by (simp add: default_timeout_def DEFAULT_TIMEOUT_def MINIMUM_TIMEOUT_def Second_def)

lemma default_worker_count_eq:
  "default_worker_count c =
     c\<lparr>WorkerCount := (if WorkerCount c \<le> 0 then DEFAULT_WORKER_COUNT
                        else if WorkerCount c > MAXIMUM_WORKER_COUNT then MAXIMUM_WORKER_COUNT
                        else WorkerCount c)\<rparr>"
  by (simp add: default_worker_count_def DEFAULT_WORKER_COUNT_def MINIMUM_WORKER_COUNT_def
      MAXIMUM_WORKER_COUNT_def)

lemma default_families_eq:
  "default_families c =
     c\<lparr>IPv4 := (case IPv4 c of Some b \<Rightarrow> Some b | None \<Rightarrow> Some (IPv6 c = None)),
       IPv6 := (case IPv6 c of Some b \<Rightarrow> Some b | None \<Rightarrow> Some (IPv4 c = None))\<rparr>"
  by (cases "IPv4 c"; cases "IPv6 c") (simp_all add: default_families_def)


lemma check_families_Inr:
  "check_families c = Some (Inr conf) \<Longrightarrow>
     conf = c \<and> (\<exists>v4 v6. IPv4 c = Some v4 \<and> IPv6 c = Some v6 \<and> (v4 \<or> v6))"
  by (auto simp: check_families_def split: option.splits if_splits)

lemma LoadConfig_checks_Inr:
  assumes "LoadConfig_checks c = Some (Inr conf)"
  shows "conf = default_families (default_worker_count (default_timeout (default_frequency
           (c\<lparr>ZoneID := TrimSpace (ZoneID c), Token := TrimSpace (Token c)\<rparr>))))"
    and "TrimSpace (ZoneID c) \<noteq> []" and "TrimSpace (Token c) \<noteq> []" and "Domains c \<noteq> []"
    and "\<exists>v4 v6. IPv4 conf = Some v4 \<and> IPv6 conf = Some v6 \<and> (v4 \<or> v6)"
proof -
  let ?d = "default_families (default_worker_count (default_timeout (default_frequency
           (c\<lparr>ZoneID := TrimSpace (ZoneID c), Token := TrimSpace (Token c)\<rparr>))))"
  from assms show z: "TrimSpace (ZoneID c) \<noteq> []"
    by (auto simp: LoadConfig_checks_def Let_def split: if_splits)
  from assms show t: "TrimSpace (Token c) \<noteq> []"
    by (auto simp: LoadConfig_checks_def Let_def split: if_splits)
  from assms show d: "Domains c \<noteq> []"
    by (auto simp: LoadConfig_checks_def Let_def split: if_splits)
  from assms z t d have "check_families ?d = Some (Inr conf)"
    by (simp add: LoadConfig_checks_def Let_def)
  from check_families_Inr [OF this]
  show "conf = ?d" and "\<exists>v4 v6. IPv4 conf = Some v4 \<and> IPv6 conf = Some v6 \<and> (v4 \<or> v6)"
    by auto
qed

lemma LoadConfig_Inr:
  "LoadConfig readFile env decode filename = Some (Inr conf) \<Longrightarrow>
     \<exists>raw data c. readFile filename = Inr raw \<and> expandEnv env raw = Some (Inr data)
        \<and> decode data = Inr c \<and> LoadConfig_checks c = Some (Inr conf)"
  by (auto simp: LoadConfig_def split: sum.splits option.splits)

lemma LoadConfig_checks_invariant:
  assumes "LoadConfig_checks c = Some (Inr conf)"
  shows "ZoneID conf \<noteq> [] \<and> TrimSpace (ZoneID conf) = ZoneID conf
    \<and> Token conf \<noteq> [] \<and> TrimSpace (Token conf) = Token conf
    \<and> Domains conf \<noteq> []
    \<and> MINIMUM_FREQUENCY \<le> Frequency conf \<and> MINIMUM_TIMEOUT \<le> Timeout conf
    \<and> MINIMUM_WORKER_COUNT \<le> WorkerCount conf \<and> WorkerCount conf \<le> MAXIMUM_WORKER_COUNT
    \<and> (\<exists>v4 v6. IPv4 conf = Some v4 \<and> IPv6 conf = Some v6 \<and> (v4 \<or> v6))"
proof -
  note r = LoadConfig_checks_Inr [OF assms]
  have f: "MINIMUM_FREQUENCY \<le> DEFAULT_FREQUENCY"
    by (simp add: DEFAULT_FREQUENCY_def MINIMUM_FREQUENCY_def Hour_def Minute_def Second_def)
  have t: "MINIMUM_TIMEOUT \<le> DEFAULT_TIMEOUT"
    by (simp add: DEFAULT_TIMEOUT_def MINIMUM_TIMEOUT_def Second_def)
  have "ZoneID conf = TrimSpace (ZoneID c)" "Token conf = TrimSpace (Token c)" "Domains conf = Domains c"
    by (simp_all add: r(1) default_families_eq default_worker_count_eq default_timeout_eq
        default_frequency_eq)
  moreover have "MINIMUM_FREQUENCY \<le> Frequency conf"
    using f by (simp add: r(1) default_families_eq default_worker_count_eq default_timeout_eq
        default_frequency_eq)
  moreover have "MINIMUM_TIMEOUT \<le> Timeout conf"
    using t by (simp add: r(1) default_families_eq default_worker_count_eq default_timeout_eq
        default_frequency_eq)
  moreover have "MINIMUM_WORKER_COUNT \<le> WorkerCount conf \<and> WorkerCount conf \<le> MAXIMUM_WORKER_COUNT"
    by (simp add: r(1) default_families_eq default_worker_count_eq default_timeout_eq
        default_frequency_eq DEFAULT_WORKER_COUNT_def MINIMUM_WORKER_COUNT_def MAXIMUM_WORKER_COUNT_def)
  ultimately show ?thesis using r(2-5) by (simp add: TrimSpace_idem)
qed

lemma LoadConfig_checks_defaults:
  assumes "LoadConfig_checks c = Some (Inr conf)"
  shows "(Frequency c = 0 \<longrightarrow> Frequency conf = DEFAULT_FREQUENCY)
    \<and> (Timeout c = 0 \<longrightarrow> Timeout conf = DEFAULT_TIMEOUT)
    \<and> (WorkerCount c \<le> 0 \<longrightarrow> WorkerCount conf = DEFAULT_WORKER_COUNT)
    \<and> (IPv4 c = None \<and> IPv6 c = None \<longrightarrow> IPv4 conf = Some True \<and> IPv6 conf = Some True)"
  by (simp add: LoadConfig_checks_Inr(1) [OF assms] default_families_eq default_worker_count_eq
      default_timeout_eq default_frequency_eq)

lemma LoadConfig_checks_both_false:
  assumes "IPv4 c = Some False" and "IPv6 c = Some False"
  shows "\<exists>err. LoadConfig_checks c = Some (Inl err)"
  using assms
  by (simp add: LoadConfig_checks_def Let_def check_families_def default_families_eq
      default_worker_count_eq default_timeout_eq default_frequency_eq)

lemma LoadConfig_checks_blank_zone:
  "LoadConfig_checks blank_zone_file = Some (Inl (ErrorString ''zone id cannot be empty''))"
proof -
  have "TrimSpace [CHR 0xC2, CHR 0xA0, CHR 0x20] = []" by code_simp
  then show ?thesis by (simp add: LoadConfig_checks_def blank_zone_file_def)
qed

lemma LoadConfig_checks_empty:
  assumes "TrimSpace (ZoneID c) = [] \<or> TrimSpace (Token c) = [] \<or> Domains c = []"
  shows "\<exists>err. LoadConfig_checks c = Some (Inl err)"
  using assms by (auto simp: LoadConfig_checks_def Let_def)

lemma LoadConfig_checks_trimmed:
  assumes "LoadConfig_checks c = Some (Inr conf)"
  shows "ZoneID conf = TrimSpace (ZoneID c) \<and> Token conf = TrimSpace (Token c)
    \<and> Domains conf = Domains c"
  by (simp add: LoadConfig_checks_Inr(1) [OF assms] default_families_eq default_worker_count_eq
      default_timeout_eq default_frequency_eq)

text \<open>
  C7. A configuration that \<open>LoadConfig\<close> returns without error has a zone ID and a token
  that are not empty and are their own trimming (they are the trimmed values of the
  file), a domain list that is not empty, a frequency of at least one minute, a timeout
  of at least one second, a worker count between 1 and 100, and both family flags set
  with at least one of them true. Where the decoded file left the frequency, the timeout
  or the worker count unset (zero; the worker count also when negative), the result has
  one hour, ten seconds and ten workers; with neither flag given both are true. A file
  whose zone ID or token is empty after trimming, or whose domain list is empty, and a
  file that sets both flags to false, are rejected with an error.
\<close>

theorem C7_LoadConfig_invariant:
  "(LoadConfig readFile env decode filename = Some (Inr conf) \<longrightarrow>
      ZoneID conf \<noteq> [] \<and> TrimSpace (ZoneID conf) = ZoneID conf
    \<and> Token conf \<noteq> [] \<and> TrimSpace (Token conf) = Token conf
    \<and> Domains conf \<noteq> []
    \<and> MINIMUM_FREQUENCY \<le> Frequency conf \<and> MINIMUM_TIMEOUT \<le> Timeout conf
    \<and> MINIMUM_WORKER_COUNT \<le> WorkerCount conf \<and> WorkerCount conf \<le> MAXIMUM_WORKER_COUNT
    \<and> (\<exists>v4 v6. IPv4 conf = Some v4 \<and> IPv6 conf = Some v6 \<and> (v4 \<or> v6)))
   \<and> (readFile filename = Inr raw \<and> expandEnv env raw = Some (Inr data) \<and> decode data = Inr c \<longrightarrow>
        (LoadConfig readFile env decode filename = Some (Inr conf) \<longrightarrow>
           ZoneID conf = TrimSpace (ZoneID c) \<and> Token conf = TrimSpace (Token c)
         \<and> Domains conf = Domains c
         \<and> (Frequency c = 0 \<longrightarrow> Frequency conf = DEFAULT_FREQUENCY)
         \<and> (Timeout c = 0 \<longrightarrow> Timeout conf = DEFAULT_TIMEOUT)
         \<and> (WorkerCount c \<le> 0 \<longrightarrow> WorkerCount conf = DEFAULT_WORKER_COUNT)
         \<and> (IPv4 c = None \<and> IPv6 c = None \<longrightarrow> IPv4 conf = Some True \<and> IPv6 conf = Some True))
      \<and> (TrimSpace (ZoneID c) = [] \<or> TrimSpace (Token c) = [] \<or> Domains c = [] \<longrightarrow>
           (\<exists>err. LoadConfig readFile env decode filename = Some (Inl err)))
      \<and> (IPv4 c = Some False \<and> IPv6 c = Some False \<longrightarrow>
           (\<exists>err. LoadConfig readFile env decode filename = Some (Inl err))))"
proof (intro conjI impI)
  assume "readFile filename = Inr raw \<and> expandEnv env raw = Some (Inr data) \<and> decode data = Inr c"
  then have eq: "LoadConfig readFile env decode filename = LoadConfig_checks c"
    by (simp add: LoadConfig_def)
  {
    assume "LoadConfig readFile env decode filename = Some (Inr conf)"
    with eq have ok: "LoadConfig_checks c = Some (Inr conf)" by simp
    from LoadConfig_checks_trimmed [OF ok]
    show "ZoneID conf = TrimSpace (ZoneID c)" and "Token conf = TrimSpace (Token c)"
      and "Domains conf = Domains c"
      by simp_all
    from LoadConfig_checks_defaults [OF ok]
    show "Frequency c = 0 \<Longrightarrow> Frequency conf = DEFAULT_FREQUENCY"
      and "Timeout c = 0 \<Longrightarrow> Timeout conf = DEFAULT_TIMEOUT"
      and "WorkerCount c \<le> 0 \<Longrightarrow> WorkerCount conf = DEFAULT_WORKER_COUNT"
      and "IPv4 c = None \<and> IPv6 c = None \<Longrightarrow> IPv4 conf = Some True"
      and "IPv4 c = None \<and> IPv6 c = None \<Longrightarrow> IPv6 conf = Some True"
      by simp_all
  }
  {
    assume "TrimSpace (ZoneID c) = [] \<or> TrimSpace (Token c) = [] \<or> Domains c = []"
    with eq LoadConfig_checks_empty [of c]
    show "\<exists>err. LoadConfig readFile env decode filename = Some (Inl err)" by simp
  }
  assume "IPv4 c = Some False \<and> IPv6 c = Some False"
  with eq LoadConfig_checks_both_false [of c]
  show "\<exists>err. LoadConfig readFile env decode filename = Some (Inl err)" by simp
next
  assume "LoadConfig readFile env decode filename = Some (Inr conf)"
  from LoadConfig_Inr [OF this] obtain c' where "LoadConfig_checks c' = Some (Inr conf)" by blast
  note inv = LoadConfig_checks_invariant [OF this]
  from inv show "ZoneID conf \<noteq> []" by simp
  from inv show "TrimSpace (ZoneID conf) = ZoneID conf" by simp
  from inv show "Token conf \<noteq> []" by simp
  from inv show "TrimSpace (Token conf) = Token conf" by simp
  from inv show "Domains conf \<noteq> []" by simp
  from inv show "MINIMUM_FREQUENCY \<le> Frequency conf" by simp
  from inv show "MINIMUM_TIMEOUT \<le> Timeout conf" by simp
  from inv show "MINIMUM_WORKER_COUNT \<le> WorkerCount conf" by simp
  from inv show "WorkerCount conf \<le> MAXIMUM_WORKER_COUNT" by simp
  from inv show "\<exists>v4 v6. IPv4 conf = Some v4 \<and> IPv6 conf = Some v6 \<and> (v4 \<or> v6)" by simp
qed


theorem C7_LoadConfig_invariant_witness:
  "LoadConfig (\<lambda>f. Inr ''zone_id: z1'') Map.empty (\<lambda>d. Inr unset_file) ''cfdns.yaml''
     = Some (Inr \<lparr>ZoneID = ''z1'', Token = ''tok'', Frequency = 3600000000000, Verbose = False,
                  IPv4 = Some True, IPv6 = Some True,
                  Domains = [\<lparr>Hostname = ''a.example.com'', Proxied = None\<rparr>],
                  WorkerCount = 10, Timeout = 10000000000\<rparr>)
   \<and> LoadConfig (\<lambda>f. Inr ''zone_id: z1'') Map.empty (\<lambda>d. Inr floor_file) ''cfdns.yaml''
     = Some (Inr \<lparr>ZoneID = ''z1'', Token = ''tok'', Frequency = 60000000000, Verbose = True,
                  IPv4 = Some True, IPv6 = Some False,
                  Domains = [\<lparr>Hostname = ''a.example.com'', Proxied = Some False\<rparr>],
                  WorkerCount = 100, Timeout = 1000000000\<rparr>)
   \<and> (\<exists>err. LoadConfig (\<lambda>f. Inr ''zone_id: z1'') Map.empty (\<lambda>d. Inr both_false_file) ''cfdns.yaml''
          = Some (Inl err))
   \<and> (\<exists>err. LoadConfig (\<lambda>f. Inr ''zone_id: z1'') Map.empty (\<lambda>d. Inr blank_zone_file) ''cfdns.yaml''
          = Some (Inl err))
   \<and> TrimSpace ''z1'' = ''z1'' \<and> TrimSpace ''tok'' = ''tok''
   \<and> MINIMUM_FREQUENCY \<le> 60000000000 \<and> MINIMUM_TIMEOUT \<le> 1000000000
   \<and> MINIMUM_WORKER_COUNT \<le> 100 \<and> 100 \<le> MAXIMUM_WORKER_COUNT"
proof -
  let ?rf = "\<lambda>f :: string. (Inr ''zone_id: z1'' :: error + string)"
  let ?c1 = "\<lparr>ZoneID = ''z1'', Token = ''tok'', Frequency = 3600000000000, Verbose = False,
                  IPv4 = Some True, IPv6 = Some True,
                  Domains = [\<lparr>Hostname = ''a.example.com'', Proxied = None\<rparr>],
                  WorkerCount = 10, Timeout = 10000000000\<rparr>"
  let ?c2 = "\<lparr>ZoneID = ''z1'', Token = ''tok'', Frequency = 60000000000, Verbose = True,
                  IPv4 = Some True, IPv6 = Some False,
                  Domains = [\<lparr>Hostname = ''a.example.com'', Proxied = Some False\<rparr>],
                  WorkerCount = 100, Timeout = 1000000000\<rparr>"
  have t1: "TrimSpace '' z1 '' = ''z1''" by code_simp
  have t2: "TrimSpace ''tok'' = ''tok''" by code_simp
  have t3: "TrimSpace ([CHR 0xC2, CHR 0xA0] @ ''z1'' @ [CHR 0xE3, CHR 0x80, CHR 0x80, CHR 0x0A]) = ''z1''"
    by code_simp
  have t4: "TrimSpace ([CHR 0x09] @ ''tok '') = ''tok''" by code_simp
  have t5: "TrimSpace ''z1'' = ''z1''" by code_simp
  have e: "expandEnv Map.empty ''zone_id: z1'' = Some (Inr ''zone_id: z1'')"
    by (simp add: expandEnv_def ReplaceAllStringFunc_def)
  have k1: "LoadConfig_checks unset_file = Some (Inr ?c1)"
    using t1 t2
    by (simp add: LoadConfig_checks_def unset_file_def check_families_def default_families_def
        default_worker_count_def default_timeout_def default_frequency_def DEFAULT_FREQUENCY_def
        MINIMUM_FREQUENCY_def DEFAULT_TIMEOUT_def MINIMUM_TIMEOUT_def DEFAULT_WORKER_COUNT_def
        MINIMUM_WORKER_COUNT_def MAXIMUM_WORKER_COUNT_def Hour_def Minute_def Second_def)
  have k2: "LoadConfig_checks floor_file = Some (Inr ?c2)"
    using t3 t4
    by (simp add: LoadConfig_checks_def floor_file_def check_families_def default_families_def
        default_worker_count_def default_timeout_def default_frequency_def DEFAULT_FREQUENCY_def
        MINIMUM_FREQUENCY_def DEFAULT_TIMEOUT_def MINIMUM_TIMEOUT_def DEFAULT_WORKER_COUNT_def
        MINIMUM_WORKER_COUNT_def MAXIMUM_WORKER_COUNT_def Hour_def Minute_def Second_def)
  have l1: "LoadConfig ?rf Map.empty (\<lambda>d. Inr unset_file) ''cfdns.yaml'' = Some (Inr ?c1)"
    using e k1 by (simp add: LoadConfig_def)
  have l2: "LoadConfig ?rf Map.empty (\<lambda>d. Inr floor_file) ''cfdns.yaml'' = Some (Inr ?c2)"
    using e k2 by (simp add: LoadConfig_def)
  have f: "IPv4 both_false_file = Some False \<and> IPv6 both_false_file = Some False"
    by (simp add: both_false_file_def)
  note w1 = C7_LoadConfig_invariant [of ?rf Map.empty "\<lambda>d. Inr unset_file" "''cfdns.yaml''" ?c1
        "''zone_id: z1''" "''zone_id: z1''" unset_file]
  note w2 = C7_LoadConfig_invariant [of ?rf Map.empty "\<lambda>d. Inr floor_file" "''cfdns.yaml''" ?c2
        "''zone_id: z1''" "''zone_id: z1''" floor_file]
  note w3 = C7_LoadConfig_invariant [of ?rf Map.empty "\<lambda>d. Inr both_false_file" "''cfdns.yaml''" ?c1
        "''zone_id: z1''" "''zone_id: z1''" both_false_file]
  from w3 e f have r3: "\<exists>err. LoadConfig ?rf Map.empty (\<lambda>d. Inr both_false_file) ''cfdns.yaml''
          = Some (Inl err)" by simp
  have t6: "TrimSpace (ZoneID blank_zone_file) = []"
    unfolding blank_zone_file_def by code_simp
  note w4 = C7_LoadConfig_invariant [of ?rf Map.empty "\<lambda>d. Inr blank_zone_file" "''cfdns.yaml''" ?c1
        "''zone_id: z1''" "''zone_id: z1''" blank_zone_file]
  from w4 e t6 have r4: "\<exists>err. LoadConfig ?rf Map.empty (\<lambda>d. Inr blank_zone_file) ''cfdns.yaml''
          = Some (Inl err)" by simp
  from w1 l1 have r1: "TrimSpace ''z1'' = ''z1'' \<and> TrimSpace ''tok'' = ''tok''" by simp
  from w2 l2 have r2: "MINIMUM_FREQUENCY \<le> 60000000000 \<and> MINIMUM_TIMEOUT \<le> 1000000000
   \<and> MINIMUM_WORKER_COUNT \<le> 100 \<and> 100 \<le> MAXIMUM_WORKER_COUNT" by simp
  from l1 l2 r1 r2 r3 r4 show ?thesis by simp
qed


text \<open>
  C10. Once the file is read, \<open>LoadConfig\<close> returns the error that names the missing
  variables exactly when the text references, as \<^verbatim>\<open>${VAR}\<close>, a variable that is unset, and
  the error then names exactly the unset variables referenced. When every referenced
  variable is set, the decoder is given the text with every \<^verbatim>\<open>${VAR}\<close> occurrence replaced
  by the value of the variable. (The pieces \<open>reEnv_split\<close> cuts are the text itself, so
  the references are occurrences in it.)
\<close>

theorem C10_LoadConfig_missing_env:
  "readFile filename = Inr raw \<Longrightarrow>
     concat (map piece_text (reEnv_split raw)) = raw
   \<and> ((\<exists>names. LoadConfig readFile env decode filename = Some (Inl (MissingEnv names)))
        \<longleftrightarrow> (\<exists>n\<in>set (references raw). env n = None))
   \<and> ((\<exists>n\<in>set (references raw). env n = None) \<longrightarrow>
        LoadConfig readFile env decode filename =
          Some (Inl (MissingEnv {n \<in> set (references raw). env n = None})))
   \<and> ((\<forall>n\<in>set (references raw). env n \<noteq> None) \<longrightarrow>
        expandEnv env raw = Some (Inr (substitute env raw))
        \<and> LoadConfig readFile env decode filename =
            (case decode (substitute env raw) of
               Inl err \<Rightarrow> Some (Inl (Wrapped ''could not parse config file'' err))
             | Inr config \<Rightarrow> LoadConfig_checks config))"
proof -
  assume rf: "readFile filename = Inr raw"
  show ?thesis
  proof (cases "\<exists>n\<in>set (references raw). env n = None")
    case True
    then have "expandEnv env raw = Some (Inl (MissingEnv {n \<in> set (references raw). env n = None}))"
      by (simp add: expandEnv_eq)
    with rf have "LoadConfig readFile env decode filename =
          Some (Inl (MissingEnv {n \<in> set (references raw). env n = None}))"
      by (simp add: LoadConfig_def)
    with True show ?thesis by (auto simp: reEnv_split_text)
  next
    case False
    then have e: "expandEnv env raw = Some (Inr (substitute env raw))"
      by (simp add: expandEnv_eq)
    with rf have l: "LoadConfig readFile env decode filename =
            (case decode (substitute env raw) of
               Inl err \<Rightarrow> Some (Inl (Wrapped ''could not parse config file'' err))
             | Inr config \<Rightarrow> LoadConfig_checks config)"
      by (simp add: LoadConfig_def)
    have "\<not> (\<exists>names. LoadConfig readFile env decode filename = Some (Inl (MissingEnv names)))"
      unfolding l by (cases "decode (substitute env raw)") (simp_all add: LoadConfig_checks_not_MissingEnv)
    with False e l show ?thesis by (simp add: reEnv_split_text)
  qed
qed

theorem C10_LoadConfig_missing_env_witness:
  "LoadConfig (\<lambda>f. Inr ''t: ${TOK} ${Z_1}'') [''TOK'' \<mapsto> ''s3''] (\<lambda>d. Inl (ErrorString d)) ''cfdns.yaml''
     = Some (Inl (MissingEnv {''Z_1''}))
   \<and> LoadConfig (\<lambda>f. Inr ''t: ${TOK}'') [''TOK'' \<mapsto> ''s3''] (\<lambda>d. Inl (ErrorString d)) ''cfdns.yaml''
     = Some (Inl (Wrapped ''could not parse config file'' (ErrorString ''t: s3'')))"
proof -
  have r1: "references ''t: ${TOK} ${Z_1}'' = [''TOK'', ''Z_1'']"
    by (simp add: references_def name_start_def name_char_def)
  have r2: "references ''t: ${TOK}'' = [''TOK'']"
    by (simp add: references_def name_start_def name_char_def)
  have s2: "substitute [''TOK'' \<mapsto> ''s3''] ''t: ${TOK}'' = ''t: s3''"
    by (simp add: substitute_def name_start_def name_char_def)
  have a: "{n \<in> set (references ''t: ${TOK} ${Z_1}''). [''TOK'' \<mapsto> ''s3''] n = None} = {''Z_1''}"
    by (auto simp: r1)
  have b: "\<exists>n\<in>set (references ''t: ${TOK} ${Z_1}''). [''TOK'' \<mapsto> ''s3''] n = None"
    by (simp add: r1)
  have c: "\<forall>n\<in>set (references ''t: ${TOK}''). [''TOK'' \<mapsto> ''s3''] n \<noteq> None"
    by (simp add: r2)
  show ?thesis
    using C10_LoadConfig_missing_env
      [of "\<lambda>f. Inr ''t: ${TOK} ${Z_1}''" "''cfdns.yaml''" "''t: ${TOK} ${Z_1}''"
          "[''TOK'' \<mapsto> ''s3'']" "\<lambda>d. Inl (ErrorString d)", THEN conjunct2]
      C10_LoadConfig_missing_env
      [of "\<lambda>f. Inr ''t: ${TOK}''" "''cfdns.yaml''" "''t: ${TOK}''"
          "[''TOK'' \<mapsto> ''s3'']" "\<lambda>d. Inl (ErrorString d)", THEN conjunct2]
      a b c
    by (simp add: s2)
qed

section \<open>Properties of the public IP resolver\<close>

lemma loop_skipped_prefix:
  "\<forall>j<length pre. provider_skipped env net (i + j) (pre ! j) \<Longrightarrow>
     getPublicIP_loop env net i (pre @ rest) =
       (pre @ fst (getPublicIP_loop env net (i + length pre) rest),
        snd (getPublicIP_loop env net (i + length pre) rest))"
proof (induction pre arbitrary: i)
  case Nil
  then show ?case by simp
next
  case (Cons s pre)
  from Cons.prems have s: "provider_skipped env net i s" by force
  from Cons.prems have "\<forall>j<length pre. provider_skipped env net (Suc i + j) (pre ! j)" by force
  from Cons.IH [OF this] s show ?case
    by (auto simp: provider_skipped_def split_def Let_def split: sum.splits option.splits)
qed

lemma getPublicIP_loop_nth:
  assumes "k < length svcs" and "\<forall>j<k. provider_skipped env net j (svcs ! j)"
  shows "getPublicIP_loop env net 0 svcs =
           (take k svcs @ fst (getPublicIP_loop env net k (svcs ! k # drop (Suc k) svcs)),
            snd (getPublicIP_loop env net k (svcs ! k # drop (Suc k) svcs)))"
proof -
  have "\<forall>j<length (take k svcs). provider_skipped env net (0 + j) (take k svcs ! j)"
    using assms by simp
  from loop_skipped_prefix [OF this, of "svcs ! k # drop (Suc k) svcs"] assms(1)
  show ?thesis by (simp add: id_take_nth_drop [symmetric] min_def)
qed

text \<open>
  C5. \<open>getPublicIP\<close> tries the providers in the shuffled order. If every provider before
  the \<open>k\<close>-th was skipped and the request to the \<open>k\<close>-th fails with a deadline or
  cancellation error of the context, that error is the result and no further provider is
  tried; if the \<open>k\<close>-th answers a text that parses as an IP address, that address is the
  result; if every provider is skipped, the result is an error and no address. A provider
  is skipped exactly when its request fails with another error or its text does not
  parse.
\<close>

theorem C5_getPublicIP_fallback:
  "(k < length (shuffle services)
      \<and> (\<forall>j<k. provider_skipped env net j (shuffle services ! j))
      \<and> getSmallText env k (shuffle services ! k) = Inl err \<and> context_error err \<longrightarrow>
        getPublicIP env net shuffle services = (take (Suc k) (shuffle services), Inl err))
   \<and> (k < length (shuffle services)
      \<and> (\<forall>j<k. provider_skipped env net j (shuffle services ! j))
      \<and> getSmallText env k (shuffle services ! k) = Inr ipStr \<and> strToIP net ipStr = Some ip \<longrightarrow>
        getPublicIP env net shuffle services = (take (Suc k) (shuffle services), Inr (IP_String net ip)))
   \<and> ((\<forall>j<length (shuffle services). provider_skipped env net j (shuffle services ! j)) \<longrightarrow>
        getPublicIP env net shuffle services =
          (shuffle services, Inl (ErrorString ''could not retrieve public IP address'')))
   \<and> (provider_skipped env net i service \<longleftrightarrow>
        (\<exists>e. getSmallText env i service = Inl e \<and> \<not> context_error e)
      \<or> (\<exists>body. getSmallText env i service = Inr body \<and> strToIP net body = None))"
proof (intro conjI impI)
  assume a: "k < length (shuffle services)
      \<and> (\<forall>j<k. provider_skipped env net j (shuffle services ! j))
      \<and> getSmallText env k (shuffle services ! k) = Inl err \<and> context_error err"
  then have "getPublicIP_loop env net k (shuffle services ! k # drop (Suc k) (shuffle services))
      = ([shuffle services ! k], Inl err)" by simp
  with a getPublicIP_loop_nth [of k "shuffle services" env net]
  show "getPublicIP env net shuffle services = (take (Suc k) (shuffle services), Inl err)"
    by (simp add: getPublicIP_def take_Suc_conv_app_nth)
next
  assume a: "k < length (shuffle services)
      \<and> (\<forall>j<k. provider_skipped env net j (shuffle services ! j))
      \<and> getSmallText env k (shuffle services ! k) = Inr ipStr \<and> strToIP net ipStr = Some ip"
  then have "getPublicIP_loop env net k (shuffle services ! k # drop (Suc k) (shuffle services))
      = ([shuffle services ! k], Inr (IP_String net ip))" by simp
  with a getPublicIP_loop_nth [of k "shuffle services" env net]
  show "getPublicIP env net shuffle services = (take (Suc k) (shuffle services), Inr (IP_String net ip))"
    by (simp add: getPublicIP_def take_Suc_conv_app_nth)
next
  assume "\<forall>j<length (shuffle services). provider_skipped env net j (shuffle services ! j)"
  then have "\<forall>j<length (shuffle services). provider_skipped env net (0 + j) (shuffle services ! j)"
    by simp
  from loop_skipped_prefix [OF this, of "[]"]
  show "getPublicIP env net shuffle services =
          (shuffle services, Inl (ErrorString ''could not retrieve public IP address''))"
    by (simp add: getPublicIP_def)
next
  show "provider_skipped env net i service \<longleftrightarrow>
        (\<exists>e. getSmallText env i service = Inl e \<and> \<not> context_error e)
      \<or> (\<exists>body. getSmallText env i service = Inr body \<and> strToIP net body = None)"
    by (simp add: provider_skipped_def split: sum.splits)
qed

theorem C5_getPublicIP_fallback_witness:
  "getPublicIP scenario_env ipv4_net rev ipv4Services = (rev ipv4Services, Inr ''203.0.113.9'')
   \<and> getPublicIP cancel_env ipv4_net rev ipv4Services
       = ([''https://v4.ident.me'', ''https://ipv4.icanhazip.com''], Inl (Wrapped ''Get'' Canceled))
   \<and> getPublicIP down_env ipv4_net rev ipv4Services
       = (rev ipv4Services, Inl (ErrorString ''could not retrieve public IP address''))"
proof -
  have l: "length (rev ipv4Services) = 3" by (simp add: ipv4Services_def)
  have s0: "provider_skipped scenario_env ipv4_net 0 (rev ipv4Services ! 0)" by code_simp
  have s1: "provider_skipped scenario_env ipv4_net 1 (rev ipv4Services ! 1)" by code_simp
  have s: "\<forall>j<2. provider_skipped scenario_env ipv4_net j (rev ipv4Services ! j)"
  proof (intro allI impI)
    fix j :: nat assume "j < 2"
    then have "j = 0 \<or> j = 1" by auto
    with s0 s1 show "provider_skipped scenario_env ipv4_net j (rev ipv4Services ! j)" by auto
  qed
  have s2: "getSmallText scenario_env 2 (rev ipv4Services ! 2) = Inr ''203.0.113.9''" by code_simp
  have s3: "strToIP ipv4_net ''203.0.113.9'' = Some [203, 0, 113, 9]" by code_simp
  have s4: "IP_String ipv4_net [203, 0, 113, 9] = ''203.0.113.9''" by code_simp
  have c0: "provider_skipped cancel_env ipv4_net 0 (rev ipv4Services ! 0)" by code_simp
  have c: "\<forall>j<1. provider_skipped cancel_env ipv4_net j (rev ipv4Services ! j)"
    using c0 by simp
  have c1: "getSmallText cancel_env 1 (rev ipv4Services ! 1) = Inl (Wrapped ''Get'' Canceled)"
    by code_simp
  have c2: "context_error (Wrapped ''Get'' Canceled)" by (simp add: context_error_def)
  have d: "\<forall>j<length (rev ipv4Services). provider_skipped down_env ipv4_net j (rev ipv4Services ! j)"
    by (simp add: provider_skipped_def getSmallText_def down_env_def context_error_def)
  have t3: "take (Suc 2) (rev ipv4Services) = rev ipv4Services" using l by simp
  have t2: "take (Suc 1) (rev ipv4Services) = [''https://v4.ident.me'', ''https://ipv4.icanhazip.com'']"
    by (simp add: ipv4Services_def)
  show ?thesis
    using C5_getPublicIP_fallback [of 2 rev ipv4Services scenario_env ipv4_net _ "''203.0.113.9''" "[203, 0, 113, 9]"]
      C5_getPublicIP_fallback [of 1 rev ipv4Services cancel_env ipv4_net "Wrapped ''Get'' Canceled"]
      C5_getPublicIP_fallback [of _ rev ipv4Services down_env ipv4_net]
      l s s2 s3 s4 c c1 c2 d t3 t2
    by simp
qed


text \<open>
  C9, as stated, fails: a provider answers 200 with 121 spaces and then \<open>1.2.3.45\<close>. The
  address is a valid literal that does not fit in the first 128 bytes, yet the provider
  is not skipped: the 128 bytes read end in \<open>1.2.3.4\<close>, which parses, and the resolver
  returns that address.
\<close>

theorem C9_truncated_literal_counterexample:
  "client_Do padded_env 0 ''https://api.ipify.org''
     = Inr \<lparr>StatusCode = 200, Body = padded_body, BodyErr = None\<rparr>
   \<and> strToIP ipv4_net (TrimSpace padded_body) = Some [1, 2, 3, 45]
   \<and> length padded_body = 129
   \<and> \<not> provider_skipped padded_env ipv4_net 0 ''https://api.ipify.org''
   \<and> getPublicIP padded_env ipv4_net rev [''https://api.ipify.org'']
       = ([''https://api.ipify.org''], Inr ''1.2.3.4'')"
proof (intro conjI)
  show "client_Do padded_env 0 ''https://api.ipify.org''
     = Inr \<lparr>StatusCode = 200, Body = padded_body, BodyErr = None\<rparr>"
    by (simp add: padded_env_def)
  show "strToIP ipv4_net (TrimSpace padded_body) = Some [1, 2, 3, 45]" by code_simp
  show "length padded_body = 129" by (simp add: padded_body_def)
  show "\<not> provider_skipped padded_env ipv4_net 0 ''https://api.ipify.org''" by code_simp
  show "getPublicIP padded_env ipv4_net rev [''https://api.ipify.org'']
       = ([''https://api.ipify.org''], Inr ''1.2.3.4'')" by code_simp
qed

lemma getSmallText_ok:
  assumes "NewRequestWithContext env url = None" and "client_Do env i url = Inr resp"
    and "StatusCode resp = StatusOK" and "128 \<le> length (Body resp) \<or> BodyErr resp = None"
  shows "getSmallText env i url = Inr (TrimSpace (take 128 (Body resp)))"
  using assms by (auto simp: getSmallText_def ReadAll_LimitReader_def)

lemma getSmallText_cut:
  assumes "NewRequestWithContext env url = None" and "client_Do env i url = Inr resp"
    and "StatusCode resp = StatusOK" and "length (Body resp) < 128" and "BodyErr resp = Some err"
  shows "getSmallText env i url = Inl err"
  using assms by (simp add: getSmallText_def ReadAll_LimitReader_def)

text \<open>
  C9, amended. On a 200 response, when the first 128 bytes of the body arrive, or the
  body is shorter and ends without a read error, \<open>getSmallText\<close> returns the first 128
  bytes of the body (all of it when shorter) with the white space trimmed, at most 128
  bytes. The resolver parses only this text: the provider is skipped exactly when it
  does not parse, and when it parses its address is returned, whatever followed in the
  body. When the body stream fails before 128 bytes have arrived, \<open>getSmallText\<close> returns
  that error and not the bytes received: the provider is skipped, unless the error is a
  context error, which ends the resolution.
\<close>

theorem C9_getSmallText_prefix:
  "NewRequestWithContext env url = None \<and> client_Do env i url = Inr resp
     \<and> StatusCode resp = StatusOK \<longrightarrow>
     ((128 \<le> length (Body resp) \<or> BodyErr resp = None) \<longrightarrow>
        getSmallText env i url = Inr (TrimSpace (take 128 (Body resp)))
      \<and> length (TrimSpace (take 128 (Body resp))) \<le> 128
      \<and> (provider_skipped env net i url \<longleftrightarrow> strToIP net (TrimSpace (take 128 (Body resp))) = None)
      \<and> (strToIP net (TrimSpace (take 128 (Body resp))) = Some ip \<longrightarrow>
           getPublicIP_loop env net i (url # rest) = ([url], Inr (IP_String net ip))))
   \<and> (length (Body resp) < 128 \<and> BodyErr resp = Some err \<longrightarrow>
        getSmallText env i url = Inl err
      \<and> (provider_skipped env net i url \<longleftrightarrow> \<not> context_error err)
      \<and> (context_error err \<longrightarrow> getPublicIP_loop env net i (url # rest) = ([url], Inl err)))"
proof (intro impI conjI)
  assume a: "NewRequestWithContext env url = None \<and> client_Do env i url = Inr resp
     \<and> StatusCode resp = StatusOK"
  {
    assume b: "128 \<le> length (Body resp) \<or> BodyErr resp = None"
    with a show g: "getSmallText env i url = Inr (TrimSpace (take 128 (Body resp)))"
      using getSmallText_ok [of env url i resp] by blast
    have "length (TrimSpace (take 128 (Body resp))) \<le> length (take 128 (Body resp))"
      by (rule length_TrimSpace)
    then show "length (TrimSpace (take 128 (Body resp))) \<le> 128" by simp
    from g show "provider_skipped env net i url \<longleftrightarrow> strToIP net (TrimSpace (take 128 (Body resp))) = None"
      by (simp add: provider_skipped_def)
    assume "strToIP net (TrimSpace (take 128 (Body resp))) = Some ip"
    with g show "getPublicIP_loop env net i (url # rest) = ([url], Inr (IP_String net ip))"
      by simp
  }
  assume c: "length (Body resp) < 128 \<and> BodyErr resp = Some err"
  with a show e: "getSmallText env i url = Inl err"
    using getSmallText_cut [of env url i resp err] by blast
  from e show "provider_skipped env net i url \<longleftrightarrow> \<not> context_error err"
    by (simp add: provider_skipped_def)
  assume "context_error err"
  with e show "getPublicIP_loop env net i (url # rest) = ([url], Inl err)" by simp
qed

theorem C9_getSmallText_prefix_witness:
  "getSmallText padded_env 0 ''https://api.ipify.org'' = Inr ''1.2.3.4''
   \<and> getPublicIP_loop padded_env ipv4_net 0 [''https://api.ipify.org'']
       = ([''https://api.ipify.org''], Inr ''1.2.3.4'')
   \<and> getSmallText nbsp_env 0 ''https://api.ipify.org'' = Inr ''1.2.3.4''
   \<and> getSmallText cut_env 0 ''https://api.ipify.org'' = Inl (ErrorString ''unexpected EOF'')
   \<and> provider_skipped cut_env ipv4_net 0 ''https://api.ipify.org''"
proof -
  have t: "TrimSpace (take 128 padded_body) = ''1.2.3.4''" by code_simp
  have n: "TrimSpace (take 128 (''1.2.3.4'' @ [CHR 0xC2, CHR 0xA0, CHR 0x0A])) = ''1.2.3.4''"
    by code_simp
  have p: "strToIP ipv4_net ''1.2.3.4'' = Some [1, 2, 3, 4]" by code_simp
  have q: "IP_String ipv4_net [1, 2, 3, 4] = ''1.2.3.4''" by code_simp
  have l: "128 \<le> length padded_body" by (simp add: padded_body_def)
  have c: "\<not> context_error (ErrorString ''unexpected EOF'')" by (simp add: context_error_def)
  from C9_getSmallText_prefix [of padded_env "''https://api.ipify.org''" 0
        "\<lparr>StatusCode = 200, Body = padded_body, BodyErr = None\<rparr>" ipv4_net "[1, 2, 3, 4]" "[]"] t p q l
  have w1: "getSmallText padded_env 0 ''https://api.ipify.org'' = Inr ''1.2.3.4''
   \<and> getPublicIP_loop padded_env ipv4_net 0 [''https://api.ipify.org'']
       = ([''https://api.ipify.org''], Inr ''1.2.3.4'')"
    by (simp add: padded_env_def StatusOK_def)
  from C9_getSmallText_prefix [of nbsp_env "''https://api.ipify.org''" 0
        "\<lparr>StatusCode = 200, Body = ''1.2.3.4'' @ [CHR 0xC2, CHR 0xA0, CHR 0x0A], BodyErr = None\<rparr>"] n
  have w2: "getSmallText nbsp_env 0 ''https://api.ipify.org'' = Inr ''1.2.3.4''"
    by (simp add: nbsp_env_def StatusOK_def)
  from C9_getSmallText_prefix [of cut_env "''https://api.ipify.org''" 0
        "\<lparr>StatusCode = 200, Body = ''1.2.3.4'', BodyErr = Some (ErrorString ''unexpected EOF'')\<rparr>"
        ipv4_net _ _ "ErrorString ''unexpected EOF''"] c
  have w3: "getSmallText cut_env 0 ''https://api.ipify.org'' = Inl (ErrorString ''unexpected EOF'')
   \<and> provider_skipped cut_env ipv4_net 0 ''https://api.ipify.org''"
    by (simp add: cut_env_def StatusOK_def)
  from w1 w2 w3 show ?thesis by blast
qed
section \<open>Properties of the reconciliation engine\<close>

subsection \<open>\<open>checkAndUpdate\<close>\<close>

lemma match_code_eq:
  "(Content r = address \<and>
      (RecordProxied r = None \<or> Proxied d = None \<or> the (RecordProxied r) = the (Proxied d)))
   = is_match address d r"
  by (auto simp: is_match_def proxied_comparison_def split: option.splits)

lemma update_records_Cons:
  "update_records cf c d address n (r # rs) =
     (if is_match address d r then ([], None)
      else if isl (api_UpdateDNSRecord cf n (ZoneID (cfg c)) (ID r) address (Proxied d))
      then ([update_call c d address r],
            Some (projl (api_UpdateDNSRecord cf n (ZoneID (cfg c)) (ID r) address (Proxied d))))
      else (update_call c d address r # fst (update_records cf c d address (Suc n) rs),
            snd (update_records cf c d address (Suc n) rs)))"
  unfolding update_records.simps match_code_eq
  by (simp add: update_call_def split_def Let_def split: sum.splits)

lemma update_records_prefix:
  "\<forall>j<length pre. \<not> is_match address d (pre ! j)
      \<and> \<not> isl (api_UpdateDNSRecord cf (n + j) (ZoneID (cfg c)) (ID (pre ! j)) address (Proxied d)) \<Longrightarrow>
   update_records cf c d address n (pre @ rest) =
     (map (update_call c d address) pre @ fst (update_records cf c d address (n + length pre) rest),
      snd (update_records cf c d address (n + length pre) rest))"
proof (induction pre arbitrary: n)
  case Nil
  then show ?case by simp
next
  case (Cons r pre)
  from Cons.prems have r: "\<not> is_match address d r"
    "\<not> isl (api_UpdateDNSRecord cf n (ZoneID (cfg c)) (ID r) address (Proxied d))" by force+
  from Cons.prems have "\<forall>j<length pre. \<not> is_match address d (pre ! j)
      \<and> \<not> isl (api_UpdateDNSRecord cf (Suc n + j) (ZoneID (cfg c)) (ID (pre ! j)) address (Proxied d))"
    by force
  from Cons.IH [OF this] r show ?case
    by (simp add: update_records_Cons del: update_records.simps)
qed

lemma update_records_calls:
  "call \<in> set (fst (update_records cf c d address n rs)) \<Longrightarrow>
     \<exists>r\<in>set rs. \<not> is_match address d r \<and> call = update_call c d address r"
proof (induction rs arbitrary: n)
  case Nil
  then show ?case by simp
next
  case (Cons r rs)
  then show ?case
    by (auto simp: update_records_Cons simp del: update_records.simps split: if_splits)
qed

lemma update_call_inj: "update_call c d address r = update_call c d address r' \<longleftrightarrow> ID r = ID r'"
  by (simp add: update_call_def)

lemma checkAndUpdate_calls:
  assumes "getRecords cf c (Hostname d) rt = Inr records"
  shows "update_call c d address r \<in> set (fst (checkAndUpdate cf c d rt address))
           \<longleftrightarrow> update_call c d address r \<in> set (fst (update_records cf c d address 0 records))"
  using assms
  by (cases records) (auto simp: checkAndUpdate_def Let_def update_call_def split_def split: sum.splits)


lemma update_records_reached:
  assumes "i < length records"
    and "\<forall>j<i. \<not> is_match address d (records ! j)
      \<and> \<not> isl (api_UpdateDNSRecord cf j (ZoneID (cfg c)) (ID (records ! j)) address (Proxied d))"
  shows "fst (update_records cf c d address 0 records) =
           map (update_call c d address) (take i records)
           @ fst (update_records cf c d address i (records ! i # drop (Suc i) records))"
proof -
  have "\<forall>j<length (take i records). \<not> is_match address d (take i records ! j)
      \<and> \<not> isl (api_UpdateDNSRecord cf (0 + j) (ZoneID (cfg c)) (ID (take i records ! j)) address (Proxied d))"
    using assms by simp
  from update_records_prefix [OF this, of "records ! i # drop (Suc i) records"] assms(1)
  show ?thesis by (simp add: id_take_nth_drop [symmetric] min_def del: update_records.simps)
qed

lemma distinct_take_nth:
  assumes "distinct (map f xs)" and "i < length xs"
  shows "f (xs ! i) \<notin> f ` set (take i xs)"
proof
  assume "f (xs ! i) \<in> f ` set (take i xs)"
  then obtain j where j: "j < i" "f (xs ! j) = f (xs ! i)"
    using assms(2) by (auto simp: in_set_conv_nth)
  with assms(2) have "map f xs ! j = map f xs ! i" by simp
  with nth_eq_iff_index_eq [OF assms(1), of j i] j(1) assms(2) have "j = i" by simp
  with j show False by simp
qed

lemma matching_record_not_updated:
  assumes "distinct (map ID records)" and "r \<in> set records" and "is_match address d r"
  shows "update_call c d address r \<notin> set (fst (update_records cf c d address n records))"
proof
  assume "update_call c d address r \<in> set (fst (update_records cf c d address n records))"
  from update_records_calls [OF this] obtain r' where
    r': "r' \<in> set records" "\<not> is_match address d r'" "ID r = ID r'"
    by (auto simp: update_call_inj)
  from assms(1) have "inj_on ID (set records)" by (simp add: distinct_map)
  from inj_onD [OF this] r'(1,3) assms(2) have "r = r'" by blast
  with r' assms(3) show False by simp
qed

text \<open>
  C1, amended. The records listed have distinct IDs. For every record that the loop
  reaches with every earlier record updated (no earlier record matched and no earlier
  update call failed), an update call is issued for it exactly when it is not a match;
  a record that is a match never gets an update call. A record is a match exactly when
  its content equals the address and the proxied flags agree or one of them is nil. With
  a single record whose content equals the address and whose proxied flag is true, and a
  domain whose proxied flag is nil, the only call made is the listing.
\<close>

theorem C1_checkAndUpdate_match:
  assumes "getRecords cf c (Hostname d) rt = Inr records" and "distinct (map ID records)"
  shows "(i < length records
          \<and> (\<forall>j<i. \<not> is_match address d (records ! j)
                \<and> \<not> isl (api_UpdateDNSRecord cf j (ZoneID (cfg c)) (ID (records ! j)) address (Proxied d))) \<longrightarrow>
          (update_call c d address (records ! i) \<in> set (fst (checkAndUpdate cf c d rt address))
             \<longleftrightarrow> \<not> is_match address d (records ! i)))
       \<and> (\<forall>r\<in>set records. is_match address d r \<longrightarrow>
             update_call c d address r \<notin> set (fst (checkAndUpdate cf c d rt address)))
       \<and> (is_match address d r0 \<longleftrightarrow>
             Content r0 = address
             \<and> (RecordProxied r0 = None \<or> Proxied d = None \<or> RecordProxied r0 = Proxied d))
       \<and> (records = [r0] \<and> Content r0 = address \<and> RecordProxied r0 = Some True \<and> Proxied d = None \<longrightarrow>
             checkAndUpdate cf c d rt address = ([ListDNSRecords (ZoneID (cfg c)) (Hostname d) rt], None))"
proof (intro conjI impI ballI)
  assume a: "i < length records
          \<and> (\<forall>j<i. \<not> is_match address d (records ! j)
                \<and> \<not> isl (api_UpdateDNSRecord cf j (ZoneID (cfg c)) (ID (records ! j)) address (Proxied d)))"
  let ?u = "update_call c d address (records ! i)"
  have calls: "fst (update_records cf c d address 0 records) =
           map (update_call c d address) (take i records)
           @ fst (update_records cf c d address i (records ! i # drop (Suc i) records))"
    using update_records_reached [of i records address d cf c] a by blast
  have notin: "?u \<notin> set (map (update_call c d address) (take i records))"
    using distinct_take_nth [OF assms(2), of i] a by (auto simp: update_call_inj)
  show "?u \<in> set (fst (checkAndUpdate cf c d rt address)) \<longleftrightarrow> \<not> is_match address d (records ! i)"
  proof (cases "is_match address d (records ! i)")
    case True
    with calls notin show ?thesis
      unfolding checkAndUpdate_calls [OF assms(1)]
      by (simp add: update_records_Cons del: update_records.simps)
  next
    case False
    with calls show ?thesis
      unfolding checkAndUpdate_calls [OF assms(1)]
      by (simp add: update_records_Cons del: update_records.simps)
  qed
next
  fix r assume "r \<in> set records" and "is_match address d r"
  with matching_record_not_updated [OF assms(2), of r address d c cf 0]
  show "update_call c d address r \<notin> set (fst (checkAndUpdate cf c d rt address))"
    unfolding checkAndUpdate_calls [OF assms(1)] by simp
next
  show "is_match address d r0 \<longleftrightarrow>
             Content r0 = address
             \<and> (RecordProxied r0 = None \<or> Proxied d = None \<or> RecordProxied r0 = Proxied d)"
    by (auto simp: is_match_def proxied_comparison_def split: option.splits)
next
  assume "records = [r0] \<and> Content r0 = address \<and> RecordProxied r0 = Some True \<and> Proxied d = None"
  with assms(1) show "checkAndUpdate cf c d rt address = ([ListDNSRecords (ZoneID (cfg c)) (Hostname d) rt], None)"
    by (simp add: checkAndUpdate_def)
qed

theorem C1_checkAndUpdate_match_witness:
  "checkAndUpdate single_cf example_cfdns example_domain ''A'' ''203.0.113.9''
     = ([ListDNSRecords ''zone1'' ''a.example.com'' ''A''], None)
   \<and> update_call example_cfdns example_domain ''203.0.113.9'' rec_stale
       \<in> set (fst (checkAndUpdate reversed_cf example_cfdns example_domain ''A'' ''203.0.113.9''))
   \<and> update_call example_cfdns example_domain ''203.0.113.9'' rec_current
       \<notin> set (fst (checkAndUpdate reversed_cf example_cfdns example_domain ''A'' ''203.0.113.9''))"
proof -
  have g1: "getRecords single_cf example_cfdns (Hostname example_domain) ''A'' = Inr [rec_current]"
    by (simp add: getRecords_def single_cf_def)
  have d1: "distinct (map ID [rec_current])" by simp
  have g2: "getRecords reversed_cf example_cfdns (Hostname example_domain) ''A'' = Inr [rec_stale, rec_current]"
    by (simp add: getRecords_def reversed_cf_def)
  have d2: "distinct (map ID [rec_stale, rec_current])" by (simp add: rec_stale_def rec_current_def)
  have m2: "\<not> is_match ''203.0.113.9'' example_domain rec_stale"
    by (simp add: is_match_def rec_stale_def)
  have m3: "is_match ''203.0.113.9'' example_domain rec_current"
    by (simp add: is_match_def rec_current_def proxied_comparison_def example_domain_def)
  have u2: "\<not> isl (api_UpdateDNSRecord reversed_cf 0 (ZoneID (cfg example_cfdns)) (ID rec_stale) ''203.0.113.9'' (Proxied example_domain))"
    by (simp add: reversed_cf_def)
  have h: "\<forall>j<1. \<not> is_match ''203.0.113.9'' example_domain ([rec_stale, rec_current] ! j)
      \<and> \<not> isl (api_UpdateDNSRecord reversed_cf j (ZoneID (cfg example_cfdns)) (ID ([rec_stale, rec_current] ! j)) ''203.0.113.9'' (Proxied example_domain))"
    using m2 u2 by simp
  have z: "ZoneID (cfg example_cfdns) = ''zone1''" "Hostname example_domain = ''a.example.com''"
    "Proxied example_domain = None" "Content rec_current = ''203.0.113.9''"
    "RecordProxied rec_current = Some True"
    by (simp_all add: example_cfdns_def example_cfg_def example_domain_def rec_current_def)
  from C1_checkAndUpdate_match [OF g1 d1, of _ "''203.0.113.9''" rec_current] z
  have w1: "checkAndUpdate single_cf example_cfdns example_domain ''A'' ''203.0.113.9''
     = ([ListDNSRecords ''zone1'' ''a.example.com'' ''A''], None)" by simp
  from C1_checkAndUpdate_match [OF g2 d2, of 0 "''203.0.113.9''"] m2
  have w2: "update_call example_cfdns example_domain ''203.0.113.9'' rec_stale
       \<in> set (fst (checkAndUpdate reversed_cf example_cfdns example_domain ''A'' ''203.0.113.9''))"
    by simp
  from C1_checkAndUpdate_match [OF g2 d2, of 1 "''203.0.113.9''"] h m3
  have w3: "update_call example_cfdns example_domain ''203.0.113.9'' rec_current
       \<notin> set (fst (checkAndUpdate reversed_cf example_cfdns example_domain ''A'' ''203.0.113.9''))"
    by simp
  from w1 w2 w3 show ?thesis by simp
qed

text \<open>
  C1, as stated for every existing record, fails: the provider lists two records that
  both differ from the address and rejects the update of the first. \<open>checkAndUpdate\<close>
  returns that error, so the second record gets no update call although it is no match.
\<close>

theorem C1_every_record_counterexample:
  "getRecords failing_cf example_cfdns (Hostname example_domain) ''A'' = Inr [rec_stale, rec_other]
   \<and> \<not> is_match ''203.0.113.9'' example_domain rec_other
   \<and> update_call example_cfdns example_domain ''203.0.113.9'' rec_other
       \<notin> set (fst (checkAndUpdate failing_cf example_cfdns example_domain ''A'' ''203.0.113.9''))
   \<and> checkAndUpdate failing_cf example_cfdns example_domain ''A'' ''203.0.113.9''
       = ([ListDNSRecords ''zone1'' ''a.example.com'' ''A'',
           UpdateDNSRecord ''zone1'' ''rec2'' ''203.0.113.9'' None],
          Some (ErrorString ''update failed''))"
proof -
  have run: "checkAndUpdate failing_cf example_cfdns example_domain ''A'' ''203.0.113.9''
       = ([ListDNSRecords ''zone1'' ''a.example.com'' ''A'',
           UpdateDNSRecord ''zone1'' ''rec2'' ''203.0.113.9'' None],
          Some (ErrorString ''update failed''))"
    by (simp add: checkAndUpdate_def getRecords_def failing_cf_def example_cfdns_def example_cfg_def
        example_domain_def rec_other_def rec_stale_def)
  have "getRecords failing_cf example_cfdns (Hostname example_domain) ''A'' = Inr [rec_stale, rec_other]"
    by (simp add: getRecords_def failing_cf_def)
  moreover have "\<not> is_match ''203.0.113.9'' example_domain rec_other"
    by (simp add: is_match_def rec_other_def)
  moreover have "update_call example_cfdns example_domain ''203.0.113.9'' rec_other
       \<notin> set (fst (checkAndUpdate failing_cf example_cfdns example_domain ''A'' ''203.0.113.9''))"
    unfolding run by (simp add: update_call_def rec_other_def)
  ultimately show ?thesis using run by simp
qed

text \<open>
  C2 on the code: the provider lists a record that matches the address before one that
  does not, and every call succeeds. \<open>checkAndUpdate\<close> returns at the matching record,
  so the only call is the listing and the second record is not updated. With the two
  records the other way round the stale one is updated.
\<close>

theorem C2_match_stops_loop:
  "getRecords duplicates_cf example_cfdns (Hostname example_domain) ''A'' = Inr [rec_current, rec_stale]
   \<and> is_match ''203.0.113.9'' example_domain rec_current
   \<and> \<not> is_match ''203.0.113.9'' example_domain rec_stale
   \<and> checkAndUpdate duplicates_cf example_cfdns example_domain ''A'' ''203.0.113.9''
       = ([ListDNSRecords ''zone1'' ''a.example.com'' ''A''], None)
   \<and> checkAndUpdate reversed_cf example_cfdns example_domain ''A'' ''203.0.113.9''
       = ([ListDNSRecords ''zone1'' ''a.example.com'' ''A'',
           UpdateDNSRecord ''zone1'' ''rec2'' ''203.0.113.9'' None], None)"
proof (intro conjI)
  show "getRecords duplicates_cf example_cfdns (Hostname example_domain) ''A'' = Inr [rec_current, rec_stale]"
    by (simp add: getRecords_def duplicates_cf_def)
  show "is_match ''203.0.113.9'' example_domain rec_current"
    by (simp add: is_match_def rec_current_def example_domain_def proxied_comparison_def)
  show "\<not> is_match ''203.0.113.9'' example_domain rec_stale"
    by (simp add: is_match_def rec_stale_def)
  show "checkAndUpdate duplicates_cf example_cfdns example_domain ''A'' ''203.0.113.9''
       = ([ListDNSRecords ''zone1'' ''a.example.com'' ''A''], None)"
    by (simp add: checkAndUpdate_def getRecords_def duplicates_cf_def example_cfdns_def
        example_cfg_def example_domain_def rec_current_def rec_stale_def)
  show "checkAndUpdate reversed_cf example_cfdns example_domain ''A'' ''203.0.113.9''
       = ([ListDNSRecords ''zone1'' ''a.example.com'' ''A'',
           UpdateDNSRecord ''zone1'' ''rec2'' ''203.0.113.9'' None], None)"
    by (simp add: checkAndUpdate_def getRecords_def reversed_cf_def example_cfdns_def
        example_cfg_def example_domain_def rec_current_def rec_stale_def)
qed


subsection \<open>\<open>SetConfig\<close>\<close>

text \<open>
  C3, as stated, fails for the nil configuration: \<open>SetConfig\<close> changes nothing, but the
  error it returns is nil.
\<close>

theorem C3_nil_config_counterexample:
  "SetConfig token_client None example_world = (example_world, None)"
  by (simp add: SetConfig_def SetConfig_trace_def)

text \<open>
  C3, amended. \<open>SetConfig\<close> with a nil configuration returns nil and leaves the store as
  it is. With a configuration for which the API client cannot be built it returns that
  error, and the configuration, the API client, the HTTP client, the pool handle, the
  timeout, the pools and the log level are unchanged (the lock was taken and is free
  again).
\<close>

theorem C3_SetConfig_error_path:
  "SetConfig NewWithAPIToken None s = (s, None)
   \<and> (NewWithAPIToken (Token c) = Inl err \<longrightarrow>
        snd (SetConfig NewWithAPIToken (Some c) s) = Some err
      \<and> fst (SetConfig NewWithAPIToken (Some c) s) = s\<lparr>cfdns := (cfdns s)\<lparr>mu := Unlocked\<rparr>\<rparr>
      \<and> cfg (cfdns (fst (SetConfig NewWithAPIToken (Some c) s))) = cfg (cfdns s)
      \<and> api (cfdns (fst (SetConfig NewWithAPIToken (Some c) s))) = api (cfdns s)
      \<and> pool (cfdns (fst (SetConfig NewWithAPIToken (Some c) s))) = pool (cfdns s)
      \<and> timeout (cfdns (fst (SetConfig NewWithAPIToken (Some c) s))) = timeout (cfdns s)
      \<and> httpClient_Timeout (cfdns (fst (SetConfig NewWithAPIToken (Some c) s))) = httpClient_Timeout (cfdns s)
      \<and> pools (fst (SetConfig NewWithAPIToken (Some c) s)) = pools s
      \<and> GlobalLevel (fst (SetConfig NewWithAPIToken (Some c) s)) = GlobalLevel s)"
  by (simp add: SetConfig_def SetConfig_trace_def)

theorem C3_SetConfig_error_path_witness:
  "SetConfig token_client (Some (example_cfg\<lparr>Token := []\<rparr>)) example_world
     = (example_world, Some (ErrorString ''invalid credentials: API Token must not be empty''))"
proof -
  have t: "token_client (Token (example_cfg\<lparr>Token := []\<rparr>))
     = Inl (ErrorString ''invalid credentials: API Token must not be empty'')"
    by (simp add: token_client_def)
  have u: "example_world\<lparr>cfdns := (cfdns example_world)\<lparr>mu := Unlocked\<rparr>\<rparr> = example_world"
    by (simp add: example_world_def example_cfdns_def)
  show ?thesis
    using C3_SetConfig_error_path [of token_client example_world "example_cfg\<lparr>Token := []\<rparr>"
        "ErrorString ''invalid credentials: API Token must not be empty''"] t u
    by (metis prod.collapse)
qed

text \<open>
  C4, as stated, fails: in a successful replacement on a store whose pool is pool 0, the
  state after the fourth statement has pool 0 closed while it is still the pool handle
  of the store and the stored configuration is still the old one; the new pool does not
  exist yet.
\<close>

theorem C4_old_pool_closed_first_counterexample:
  "pool (cfdns example_world) = Some 0
   \<and> \<not> closed (pools example_world ! 0)
   \<and> snd (SetConfig_trace token_client (Some replacement_cfg) example_world) = None
   \<and> pool (cfdns (fst (SetConfig_trace token_client (Some replacement_cfg) example_world) ! 3)) = Some 0
   \<and> closed (pools (fst (SetConfig_trace token_client (Some replacement_cfg) example_world) ! 3) ! 0)
   \<and> cfg (cfdns (fst (SetConfig_trace token_client (Some replacement_cfg) example_world) ! 3)) = example_cfg
   \<and> length (pools (fst (SetConfig_trace token_client (Some replacement_cfg) example_world) ! 3)) = 1"
  by (simp add: SetConfig_trace_def token_client_def replacement_cfg_def example_world_def
      example_cfdns_def Pool_Close_def NewPool_def Let_def)

lemma SetConfig_trace_success:
  assumes "NewWithAPIToken (Token c) = Inr a" and "pool (cfdns s) = Some p"
  shows "SetConfig_trace NewWithAPIToken (Some c) s =
     ([s\<lparr>cfdns := (cfdns s)\<lparr>mu := Locked\<rparr>\<rparr>,
       s\<lparr>cfdns := (cfdns s)\<lparr>mu := Locked, api := Some a\<rparr>\<rparr>,
       s\<lparr>cfdns := (cfdns s)\<lparr>mu := Locked, api := Some a, httpClient_Timeout := Timeout c\<rparr>\<rparr>,
       s\<lparr>cfdns := (cfdns s)\<lparr>mu := Locked, api := Some a, httpClient_Timeout := Timeout c\<rparr>,
         pools := (pools s)[p := (pools s ! p)\<lparr>closed := True\<rparr>]\<rparr>,
       s\<lparr>cfdns := (cfdns s)\<lparr>mu := Locked, api := Some a, httpClient_Timeout := Timeout c,
                             timeout := Timeout c\<rparr>,
         pools := (pools s)[p := (pools s ! p)\<lparr>closed := True\<rparr>]\<rparr>,
       s\<lparr>cfdns := (cfdns s)\<lparr>mu := Locked, api := Some a, httpClient_Timeout := Timeout c,
                             timeout := Timeout c, pool := Some (length (pools s))\<rparr>,
         pools := (pools s)[p := (pools s ! p)\<lparr>closed := True\<rparr>]
                  @ [\<lparr>workers = WorkerCount c, queue = wrap64 (WorkerCount c * 5), closed = False\<rparr>]\<rparr>,
       s\<lparr>cfdns := (cfdns s)\<lparr>mu := Locked, api := Some a, httpClient_Timeout := Timeout c,
                             timeout := Timeout c, pool := Some (length (pools s))\<rparr>,
         pools := (pools s)[p := (pools s ! p)\<lparr>closed := True\<rparr>]
                  @ [\<lparr>workers = WorkerCount c, queue = wrap64 (WorkerCount c * 5), closed = False\<rparr>],
         GlobalLevel := (if Verbose c then DebugLevel else InfoLevel)\<rparr>,
       s\<lparr>cfdns := (cfdns s)\<lparr>mu := Locked, api := Some a, httpClient_Timeout := Timeout c,
                             timeout := Timeout c, pool := Some (length (pools s)), cfg := c\<rparr>,
         pools := (pools s)[p := (pools s ! p)\<lparr>closed := True\<rparr>]
                  @ [\<lparr>workers = WorkerCount c, queue = wrap64 (WorkerCount c * 5), closed = False\<rparr>],
         GlobalLevel := (if Verbose c then DebugLevel else InfoLevel)\<rparr>,
       s\<lparr>cfdns := (cfdns s)\<lparr>mu := Unlocked, api := Some a, httpClient_Timeout := Timeout c,
                             timeout := Timeout c, pool := Some (length (pools s)), cfg := c\<rparr>,
         pools := (pools s)[p := (pools s ! p)\<lparr>closed := True\<rparr>]
                  @ [\<lparr>workers = WorkerCount c, queue = wrap64 (WorkerCount c * 5), closed = False\<rparr>],
         GlobalLevel := (if Verbose c then DebugLevel else InfoLevel)\<rparr>],
      None)"
  using assms
  by (simp add: SetConfig_trace_def Let_def Pool_Close_def NewPool_def)


text \<open>
  C4, amended. In a successful replacement, with the lock held until the last step, the
  new API client and HTTP timeout are stored first; then the previous pool is closed
  while it is still the pool handle of the store and the old configuration is still
  stored; then the timeout and the new pool (with the new worker count and five times
  that as queue size) are stored, and last the new configuration. At the end the store
  holds the new configuration, client and pool, and the previous pool is closed.
\<close>

theorem C4_SetConfig_close_order:
  assumes "NewWithAPIToken (Token c) = Inr a" and "pool (cfdns s) = Some p" and "p < length (pools s)"
  shows "snd (SetConfig_trace NewWithAPIToken (Some c) s) = None
    \<and> length (fst (SetConfig_trace NewWithAPIToken (Some c) s)) = 9
    \<and> list_all (\<lambda>t. mu (cfdns t) = Locked) (butlast (fst (SetConfig_trace NewWithAPIToken (Some c) s)))
    \<and> api (cfdns (fst (SetConfig_trace NewWithAPIToken (Some c) s) ! 2)) = Some a
    \<and> pool (cfdns (fst (SetConfig_trace NewWithAPIToken (Some c) s) ! 2)) = Some p
    \<and> pools (fst (SetConfig_trace NewWithAPIToken (Some c) s) ! 2) = pools s
    \<and> httpClient_Timeout (cfdns (fst (SetConfig_trace NewWithAPIToken (Some c) s) ! 2)) = Timeout c
    \<and> api (cfdns (fst (SetConfig_trace NewWithAPIToken (Some c) s) ! 3)) = Some a
    \<and> httpClient_Timeout (cfdns (fst (SetConfig_trace NewWithAPIToken (Some c) s) ! 3)) = Timeout c
    \<and> pool (cfdns (fst (SetConfig_trace NewWithAPIToken (Some c) s) ! 3)) = Some p
    \<and> closed (pools (fst (SetConfig_trace NewWithAPIToken (Some c) s) ! 3) ! p)
    \<and> length (pools (fst (SetConfig_trace NewWithAPIToken (Some c) s) ! 3)) = length (pools s)
    \<and> cfg (cfdns (fst (SetConfig_trace NewWithAPIToken (Some c) s) ! 3)) = cfg (cfdns s)
    \<and> pool (cfdns (fst (SetConfig_trace NewWithAPIToken (Some c) s) ! 5)) = Some (length (pools s))
    \<and> cfg (cfdns (fst (SetConfig_trace NewWithAPIToken (Some c) s) ! 5)) = cfg (cfdns s)
    \<and> cfg (cfdns (fst (SetConfig_trace NewWithAPIToken (Some c) s) ! 7)) = c
    \<and> fst (SetConfig_trace NewWithAPIToken (Some c) s) ! 8 = fst (SetConfig NewWithAPIToken (Some c) s)
    \<and> cfdns (fst (SetConfig NewWithAPIToken (Some c) s))
        = \<lparr>mu = Unlocked, cfg = c, api = Some a, httpClient_Timeout = Timeout c,
           timeout = Timeout c, pool = Some (length (pools s))\<rparr>
    \<and> pools (fst (SetConfig NewWithAPIToken (Some c) s))
        = (pools s)[p := (pools s ! p)\<lparr>closed := True\<rparr>]
          @ [\<lparr>workers = WorkerCount c, queue = wrap64 (WorkerCount c * 5), closed = False\<rparr>]"
proof -
  note tr = SetConfig_trace_success [of NewWithAPIToken c a s p, OF assms(1,2)]
  show ?thesis unfolding SetConfig_def tr using assms(2,3) by simp
qed

theorem C4_SetConfig_close_order_witness:
  "pool (cfdns (fst (SetConfig_trace token_client (Some replacement_cfg) example_world) ! 3)) = Some 0
   \<and> closed (pools (fst (SetConfig_trace token_client (Some replacement_cfg) example_world) ! 3) ! 0)
   \<and> pool (cfdns (fst (SetConfig_trace token_client (Some replacement_cfg) example_world) ! 5)) = Some 1
   \<and> pools (fst (SetConfig token_client (Some replacement_cfg) example_world))
       = [\<lparr>workers = 10, queue = 50, closed = True\<rparr>, \<lparr>workers = 4, queue = 20, closed = False\<rparr>]"
proof -
  have t: "token_client (Token replacement_cfg) = Inr (API ''tok2'')"
    by (simp add: token_client_def replacement_cfg_def)
  have p: "pool (cfdns example_world) = Some 0"
    by (simp add: example_world_def example_cfdns_def)
  have l: "0 < length (pools example_world)" by (simp add: example_world_def)
  have w: "WorkerCount replacement_cfg = 4" by (simp add: replacement_cfg_def)
  have q: "wrap64 (4 * 5) = 20" by (simp add: wrap64_def)
  have e: "pools example_world = [\<lparr>workers = 10, queue = 50, closed = False\<rparr>]"
    by (simp add: example_world_def)
  show ?thesis
    using C4_SetConfig_close_order
      [of token_client replacement_cfg "API ''tok2''" example_world 0, OF t p l] w q e
    by simp
qed

subsection \<open>\<open>Process\<close>\<close>

lemma record_types_differ: "RECORD_TYPE_IPV4 \<noteq> RECORD_TYPE_IPV6"
  by (simp add: RECORD_TYPE_IPV4_def RECORD_TYPE_IPV6_def)

lemma filter_submit_tasks_IPV4:
  "filter (\<lambda>t. task_recordType t = RECORD_TYPE_IPV4) (submit_tasks use4 use6 ipv4 ipv6 ds) =
     (if use4 \<and> ipv4 \<noteq> []
      then map (\<lambda>d. \<lparr>task_domain = d, task_recordType = RECORD_TYPE_IPV4, task_address = ipv4\<rparr>) ds
      else [])"
  using record_types_differ by (induction ds) auto

lemma filter_submit_tasks_IPV6:
  "filter (\<lambda>t. task_recordType t = RECORD_TYPE_IPV6) (submit_tasks use4 use6 ipv4 ipv6 ds) =
     (if use6 \<and> ipv6 \<noteq> []
      then map (\<lambda>d. \<lparr>task_domain = d, task_recordType = RECORD_TYPE_IPV6, task_address = ipv6\<rparr>) ds
      else [])"
  using record_types_differ by (induction ds) auto

text \<open>
  C6. In a cycle whose zone check passed: if a family is disabled or its resolution
  failed, its address is the empty string and no task of its record type is submitted;
  and a family that is enabled and resolved to an address gets one task for every
  configured domain, in order, with that address, whatever happened to the other
  family.
\<close>

theorem C6_failed_family_submits_nothing:
  assumes "ZoneIsValid c zones = (True, None)"
    and "IPv4 (cfg c) = Some use4" and "IPv6 (cfg c) = Some use6"
  shows "\<exists>ipv4 ipv6 tasks.
      getPublicIPs c await4 await6 = Some (ipv4, ipv6)
    \<and> Process c zones await4 await6 = Some tasks
    \<and> (\<not> use4 \<or> isl await4 \<longrightarrow>
          ipv4 = [] \<and> filter (\<lambda>t. task_recordType t = RECORD_TYPE_IPV4) tasks = [])
    \<and> (\<not> use6 \<or> isl await6 \<longrightarrow>
          ipv6 = [] \<and> filter (\<lambda>t. task_recordType t = RECORD_TYPE_IPV6) tasks = [])
    \<and> (use4 \<and> await4 = Inr v4 \<and> v4 \<noteq> [] \<longrightarrow>
          ipv4 = v4
        \<and> filter (\<lambda>t. task_recordType t = RECORD_TYPE_IPV4) tasks =
            map (\<lambda>d. \<lparr>task_domain = d, task_recordType = RECORD_TYPE_IPV4, task_address = v4\<rparr>)
              (Domains (cfg c)))
    \<and> (use6 \<and> await6 = Inr v6 \<and> v6 \<noteq> [] \<longrightarrow>
          ipv6 = v6
        \<and> filter (\<lambda>t. task_recordType t = RECORD_TYPE_IPV6) tasks =
            map (\<lambda>d. \<lparr>task_domain = d, task_recordType = RECORD_TYPE_IPV6, task_address = v6\<rparr>)
              (Domains (cfg c)))"
proof -
  let ?ipv4 = "if use4 then (case await4 of Inl err \<Rightarrow> [] | Inr v \<Rightarrow> v) else []"
  let ?ipv6 = "if use6 then (case await6 of Inl err \<Rightarrow> [] | Inr v \<Rightarrow> v) else []"
  let ?tasks = "submit_tasks use4 use6 ?ipv4 ?ipv6 (Domains (cfg c))"
  have g: "getPublicIPs c await4 await6 = Some (?ipv4, ?ipv6)"
    using assms(2,3) by (simp add: getPublicIPs_def)
  have p: "Process c zones await4 await6 = Some ?tasks"
    using assms g by (simp add: Process_def)
  have a: "\<not> use4 \<or> isl await4 \<longrightarrow>
          ?ipv4 = [] \<and> filter (\<lambda>t. task_recordType t = RECORD_TYPE_IPV4) ?tasks = []"
    unfolding filter_submit_tasks_IPV4 by (cases await4) auto
  have b: "\<not> use6 \<or> isl await6 \<longrightarrow>
          ?ipv6 = [] \<and> filter (\<lambda>t. task_recordType t = RECORD_TYPE_IPV6) ?tasks = []"
    unfolding filter_submit_tasks_IPV6 by (cases await6) auto
  have c: "use4 \<and> await4 = Inr v4 \<and> v4 \<noteq> [] \<longrightarrow>
          ?ipv4 = v4
        \<and> filter (\<lambda>t. task_recordType t = RECORD_TYPE_IPV4) ?tasks =
            map (\<lambda>d. \<lparr>task_domain = d, task_recordType = RECORD_TYPE_IPV4, task_address = v4\<rparr>)
              (Domains (cfg c))"
    unfolding filter_submit_tasks_IPV4 by simp
  have d: "use6 \<and> await6 = Inr v6 \<and> v6 \<noteq> [] \<longrightarrow>
          ?ipv6 = v6
        \<and> filter (\<lambda>t. task_recordType t = RECORD_TYPE_IPV6) ?tasks =
            map (\<lambda>d. \<lparr>task_domain = d, task_recordType = RECORD_TYPE_IPV6, task_address = v6\<rparr>)
              (Domains (cfg c))"
    unfolding filter_submit_tasks_IPV6 by simp
  from g p a b c d show ?thesis by blast
qed

theorem C6_failed_family_submits_nothing_witness:
  "getPublicIPs example_cfdns (Inl DeadlineExceeded) (Inr ''2001:db8::1'') = Some ([], ''2001:db8::1'')
   \<and> Process example_cfdns (Inr [''zone0'', ''zone1'']) (Inl DeadlineExceeded) (Inr ''2001:db8::1'')
      = Some [\<lparr>task_domain = \<lparr>Hostname = ''a.example.com'', Proxied = None\<rparr>,
               task_recordType = ''AAAA'', task_address = ''2001:db8::1''\<rparr>,
              \<lparr>task_domain = \<lparr>Hostname = ''b.example.com'', Proxied = Some True\<rparr>,
               task_recordType = ''AAAA'', task_address = ''2001:db8::1''\<rparr>]"
proof -
  have z: "ZoneIsValid example_cfdns (Inr [''zone0'', ''zone1'']) = (True, None)"
    by (simp add: ZoneIsValid_def example_cfdns_def example_cfg_def)
  have f: "IPv4 (cfg example_cfdns) = Some True" "IPv6 (cfg example_cfdns) = Some True"
    by (simp_all add: example_cfdns_def example_cfg_def)
  have g: "getPublicIPs example_cfdns (Inl DeadlineExceeded) (Inr ''2001:db8::1'') = Some ([], ''2001:db8::1'')"
    by (simp add: getPublicIPs_def example_cfdns_def example_cfg_def)
  have p: "Process example_cfdns (Inr [''zone0'', ''zone1'']) (Inl DeadlineExceeded) (Inr ''2001:db8::1'')
      = Some [\<lparr>task_domain = \<lparr>Hostname = ''a.example.com'', Proxied = None\<rparr>,
               task_recordType = ''AAAA'', task_address = ''2001:db8::1''\<rparr>,
              \<lparr>task_domain = \<lparr>Hostname = ''b.example.com'', Proxied = Some True\<rparr>,
               task_recordType = ''AAAA'', task_address = ''2001:db8::1''\<rparr>]"
    by (simp add: Process_def ZoneIsValid_def getPublicIPs_def example_cfdns_def example_cfg_def
        RECORD_TYPE_IPV6_def)
  from C6_failed_family_submits_nothing [OF z f, of "Inl DeadlineExceeded" "Inr ''2001:db8::1''"
      "[]" "''2001:db8::1''"] g p
  show ?thesis by simp
qed


end
